theory Spec2Isabelle
  imports Main "HOL-Library.Word" "HOL-Library.List_Lexorder"
begin

section \<open>JavaScript strings and errors\<close>

text \<open>
  A JavaScript string is a sequence of UTF-16 code units. Comparison of two strings with
  \<open><\<close> is lexicographic on the code units, which is the order of
  \<^theory_text>\<open>HOL-Library.List_Lexorder\<close> on \<open>16 word list\<close>.
\<close>

type_synonym js_string = "16 word list"

definition js :: "string \<Rightarrow> js_string" where
  \<comment> \<open>an ASCII literal of the source\<close>
  "js s = map of_char s"

definition dollar :: "16 word" where
  "dollar = 0x24"

definition backslash :: "16 word" where
  "backslash = 0x5C"

definition newline :: "16 word" where
  "newline = 0x0A"

definition fromCharCode :: "nat \<Rightarrow> js_string" where
  \<comment> \<open>\<open>String.fromCharCode(n)\<close>: one code unit, the number taken modulo \<open>2 ^ 16\<close>\<close>
  "fromCharCode n = [word_of_nat n]"

definition endsWith :: "js_string \<Rightarrow> js_string \<Rightarrow> bool" where
  "endsWith s suffix =
     (length suffix \<le> length s \<and> drop (length s - length suffix) s = suffix)"

fun includes_str :: "js_string \<Rightarrow> js_string \<Rightarrow> bool" where
  "includes_str [] search = (search = [])"
| "includes_str (c # cs) search =
     (take (length search) (c # cs) = search \<or> includes_str cs search)"

text \<open>
  Whatever a call can throw. \<open>IllegalArgument\<close> is what the editor's \<open>Position\<close>
  constructor throws for a negative line or character; \<open>Thrown\<close> stands for every other
  exception (an invalid regular expression, a rejected request, a failing document method).
\<close>

datatype error = IllegalArgument | Thrown js_string

definition and_then :: "error + 'a \<Rightarrow> ('a \<Rightarrow> error + 'b) \<Rightarrow> error + 'b" where
  \<comment> \<open>sequencing of two statements: the second runs only if the first did not throw\<close>
  "and_then r f = (case r of Inl e \<Rightarrow> Inl e | Inr v \<Rightarrow> f v)"

section \<open>The editor's classes and interfaces used by the source\<close>

record Position =
  line :: nat
  character :: nat

definition Position_translate :: "Position \<Rightarrow> int \<Rightarrow> int \<Rightarrow> error + Position" where
  \<comment> \<open>\<open>position.translate(lineDelta, characterDelta)\<close>\<close>
  "Position_translate p lineDelta characterDelta =
     (let l = int (line p) + lineDelta; c = int (character p) + characterDelta
      in if l < 0 \<or> c < 0 then Inl IllegalArgument
         else Inr \<lparr>line = nat l, character = nat c\<rparr>)"

definition Position_with_character :: "Position \<Rightarrow> nat \<Rightarrow> Position" where
  \<comment> \<open>\<open>position.with({ character: c })\<close>\<close>
  "Position_with_character p c = p\<lparr>character := c\<rparr>"

definition isBefore :: "Position \<Rightarrow> Position \<Rightarrow> bool" where
  "isBefore p q = (line p < line q \<or> (line p = line q \<and> character p < character q))"

record Range =
  range_start :: Position
  range_end :: Position

definition new_Range :: "Position \<Rightarrow> Position \<Rightarrow> Range" where
  \<comment> \<open>\<open>new vscode.Range(a, b)\<close>: the two positions, the earlier one first\<close>
  "new_Range a b =
     (if isBefore a b then \<lparr>range_start = a, range_end = b\<rparr>
      else \<lparr>range_start = b, range_end = a\<rparr>)"

record TextLine =
  textline_range :: Range

text \<open>
  \<open>vscode.TextDocument\<close> is an interface: the source works on whatever object the editor
  hands over, so the document is a record of its methods, each of which may throw.
\<close>

record TextDocument =
  fileName :: js_string
  offsetAt :: "Position \<Rightarrow> error + int"
  positionAt :: "int \<Rightarrow> error + Position"
  getText :: "Range \<Rightarrow> error + js_string"
  lineAt :: "Position \<Rightarrow> error + TextLine"

section \<open>The completion service's request and response\<close>

datatype MarkdownStringSpec =
  MarkdownStringSpec (spec_kind: js_string) (spec_value: js_string)

datatype documentation_value = DocString js_string | DocSpec MarkdownStringSpec

record ResultEntry =
  new_prefix :: js_string
  old_suffix :: js_string
  new_suffix :: js_string
  kind :: "nat option"
  documentation :: "documentation_value option"
  detail :: "js_string option"

record AutocompleteResult =
  old_prefix :: js_string
  results :: "ResultEntry list"
  user_message :: "js_string list option"

record AutocompleteParams =
  filename :: js_string
  before :: js_string
  after :: js_string
  region_includes_beginning :: bool
  region_includes_end :: bool
  max_num_results :: nat

text \<open>
  JavaScript's truth test on the optional fields of an entry: \<open>undefined\<close>, the number
  \<open>0\<close> and the empty string are falsy, an object is truthy.
\<close>

definition truthy_kind :: "nat option \<Rightarrow> bool" where
  "truthy_kind k = (case k of None \<Rightarrow> False | Some n \<Rightarrow> n \<noteq> 0)"

definition truthy_documentation :: "documentation_value option \<Rightarrow> bool" where
  "truthy_documentation d =
     (case d of None \<Rightarrow> False | Some (DocString s) \<Rightarrow> s \<noteq> [] | Some (DocSpec m) \<Rightarrow> True)"

definition truthy_string :: "js_string option \<Rightarrow> bool" where
  "truthy_string s = (case s of None \<Rightarrow> False | Some t \<Rightarrow> t \<noteq> [])"

section \<open>What the source reads from its surroundings\<close>

datatype Capability = ON_BOARDING_CAPABILITY | SUGGESTIONS_SINGLE | SUGGESTIONS_TWO

text \<open>
  The imported functions and constants whose code is in other modules, and the built-in
  regular expression engine, are parameters: \<open>configuration_get\<close> is
  \<open>vscode.workspace.getConfiguration().get\<close>, \<open>RegExp_test r s\<close> is
  \<open>new RegExp(r).test(s)\<close> (it throws on a pattern that does not compile), and
  \<open>autocomplete\<close> is the awaited request (\<open>Inl\<close> when the promise rejects).
\<close>

record ambient =
  configuration_get :: "js_string \<Rightarrow> js_string list option"
  isCapabilityEnabled :: "Capability \<Rightarrow> bool"
  isTabNineAutoImportEnabled :: bool
  autocomplete :: "AutocompleteParams \<Rightarrow> error + AutocompleteResult option"
  RegExp_test :: "js_string \<Rightarrow> js_string \<Rightarrow> error + bool"
  CHAR_LIMIT :: int
  DEFAULT_DETAIL :: js_string
  MAX_NUM_RESULTS :: nat
  COMPLETION_IMPORTS :: js_string

section \<open>The completion items\<close>

text \<open>
  A snippet string is kept as the calls that built it: the constructor, then
  \<open>appendTabstop\<close> and \<open>appendText\<close>.
\<close>

datatype SnippetString =
  SnippetString js_string
  | appendTabstop nat SnippetString
  | appendText js_string SnippetString

text \<open>
  The value of an item's \<open>documentation\<close>: a string, a \<open>vscode.MarkdownString\<close>, or
  the service's own object where \<open>formatDocumentation\<close> hands its argument back.
\<close>

datatype item_documentation_value =
  ItemString js_string
  | ItemMarkdownString js_string
  | ItemSpec MarkdownStringSpec

record CompletionArguments =
  currentCompletion :: js_string
  completions :: "ResultEntry list"
  completion_position :: Position

record Command =
  arguments :: "CompletionArguments list"
  command :: js_string
  title :: js_string

record CompletionItem =
  label :: js_string
  sortText :: js_string
  insertText :: SnippetString
  filterText :: js_string
  preselect :: bool
  item_kind :: "nat option"
  item_range :: Range
  item_command :: "Command option"
  item_documentation :: "item_documentation_value option"
  item_detail :: js_string

record CompletionList =
  items :: "CompletionItem list"
  isIncomplete :: bool

section \<open>The functions of provideCompletionItems.ts\<close>

subsection \<open>getMaxResults\<close>

definition getMaxResults :: "ambient \<Rightarrow> nat" where
  "getMaxResults env =
     (if isCapabilityEnabled env SUGGESTIONS_SINGLE then 1
      else if isCapabilityEnabled env SUGGESTIONS_TWO then 2
      else MAX_NUM_RESULTS env)"

subsection \<open>formatDocumentation and isMarkdownStringSpec\<close>

fun isMarkdownStringSpec :: "documentation_value \<Rightarrow> bool" where
  \<comment> \<open>\<open>return x.kind\<close>: a string has no such property, an object's is tested for truth\<close>
  "isMarkdownStringSpec (DocString s) = False"
| "isMarkdownStringSpec (DocSpec m) = (spec_kind m \<noteq> [])"

fun unchanged :: "documentation_value \<Rightarrow> item_documentation_value" where
  \<comment> \<open>\<open>return documentation\<close>: the argument itself\<close>
  "unchanged (DocString s) = ItemString s"
| "unchanged (DocSpec m) = ItemSpec m"

definition formatDocumentation :: "documentation_value \<Rightarrow> item_documentation_value" where
  "formatDocumentation documentation_arg =
     (if isMarkdownStringSpec documentation_arg then
        (case documentation_arg of
           DocSpec m \<Rightarrow>
             if spec_kind m = js ''markdown'' then ItemMarkdownString (spec_value m)
             else ItemString (spec_value m)
         | DocString s \<Rightarrow> ItemString s)
      else unchanged documentation_arg)"

subsection \<open>escapeTabStopSign\<close>

text \<open>
  \<open>value.replace(new RegExp("\\$", "g"), "\\$")\<close>: the pattern matches one dollar sign,
  the flag \<open>g\<close> replaces every match, and the replacement is a backslash and a dollar sign
  (a dollar sign at the end of a replacement string stands for itself).
\<close>

fun escapeTabStopSign :: "js_string \<Rightarrow> js_string" where
  "escapeTabStopSign [] = []"
| "escapeTabStopSign (c # cs) =
     (if c = dollar then [backslash, dollar] else [c]) @ escapeTabStopSign cs"

subsection \<open>completionIsAllowed\<close>

text \<open>
  The function is modelled together with the calls it makes, in order: each read of the
  line through \<open>getText\<close> and each regular expression it evaluates.
\<close>

datatype event = is_GetText: GetText Range | RegExpTest js_string js_string

definition line_range :: "Position \<Rightarrow> Range" where
  "line_range position_arg =
     new_Range (Position_with_character position_arg 0)
       (Position_with_character position_arg 500)"

text \<open>
  The first loop. \<open>line_var\<close> is the variable \<open>line\<close>, \<open>None\<close> while it is
  \<open>undefined\<close>. The result \<open>Inr True\<close> says that a pattern matched (the function
  returns \<open>false\<close>), \<open>Inr False\<close> that the loop ran to its end.
\<close>

fun disable_line_loop ::
  "ambient \<Rightarrow> TextDocument \<Rightarrow> Position \<Rightarrow> js_string option \<Rightarrow> js_string list
    \<Rightarrow> (error + bool) \<times> event list" where
  "disable_line_loop env document position_arg line_var [] = (Inr False, [])"
| "disable_line_loop env document position_arg line_var (r # rs) =
     (case (case line_var of
              None \<Rightarrow> (getText document (line_range position_arg),
                        [GetText (line_range position_arg)])
            | Some l \<Rightarrow> (Inr l, [])) of
        (Inl e, tr) \<Rightarrow> (Inl e, tr)
      | (Inr l, tr) \<Rightarrow>
          (case RegExp_test env r l of
             Inl e \<Rightarrow> (Inl e, tr @ [RegExpTest r l])
           | Inr True \<Rightarrow> (Inr True, tr @ [RegExpTest r l])
           | Inr False \<Rightarrow>
               (case disable_line_loop env document position_arg (Some l) rs of
                  (res, tr') \<Rightarrow> (res, tr @ RegExpTest r l # tr'))))"

fun disable_file_loop ::
  "ambient \<Rightarrow> TextDocument \<Rightarrow> js_string list \<Rightarrow> (error + bool) \<times> event list" where
  "disable_file_loop env document [] = (Inr False, [])"
| "disable_file_loop env document (r # rs) =
     (case RegExp_test env r (fileName document) of
        Inl e \<Rightarrow> (Inl e, [RegExpTest r (fileName document)])
      | Inr True \<Rightarrow> (Inr True, [RegExpTest r (fileName document)])
      | Inr False \<Rightarrow>
          (case disable_file_loop env document rs of
             (res, tr') \<Rightarrow> (res, RegExpTest r (fileName document) # tr')))"

definition disable_line_regex :: "ambient \<Rightarrow> js_string list" where
  "disable_line_regex env =
     (case configuration_get env (js ''tabnine.disable_line_regex'') of
        None \<Rightarrow> [] | Some rs \<Rightarrow> rs)"

definition disable_file_regex :: "ambient \<Rightarrow> js_string list" where
  "disable_file_regex env =
     (case configuration_get env (js ''tabnine.disable_file_regex'') of
        None \<Rightarrow> [] | Some rs \<Rightarrow> rs)"

definition completionIsAllowed ::
  "ambient \<Rightarrow> TextDocument \<Rightarrow> Position \<Rightarrow> (error + bool) \<times> event list" where
  "completionIsAllowed env document position_arg =
     (case disable_line_loop env document position_arg None (disable_line_regex env) of
        (Inl e, tr) \<Rightarrow> (Inl e, tr)
      | (Inr True, tr) \<Rightarrow> (Inr False, tr)
      | (Inr False, tr) \<Rightarrow>
          (case disable_file_loop env document (disable_file_regex env) of
             (Inl e, tr') \<Rightarrow> (Inl e, tr @ tr')
           | (Inr True, tr') \<Rightarrow> (Inr False, tr @ tr')
           | (Inr False, tr') \<Rightarrow> (Inr True, tr @ tr')))"

subsection \<open>showFew\<close>

definition showFew :: "AutocompleteResult \<Rightarrow> TextDocument \<Rightarrow> Position \<Rightarrow> error + bool" where
  "showFew response document position_arg =
     (if list_ex (\<lambda>entry. truthy_kind (kind entry) \<or> truthy_documentation (documentation entry))
           (results response)
      then Inr False
      else
        and_then (Position_translate position_arg 0 (- int (length (old_prefix response))))
          (\<lambda>leftPoint.
        and_then (lineAt document leftPoint)
          (\<lambda>textLine.
        and_then (getText document (new_Range (range_start (textline_range textLine)) leftPoint))
          (\<lambda>tail. Inr (endsWith tail (js ''.'') \<or> endsWith tail (js ''::''))))))"

subsection \<open>makeCompletionItem\<close>

definition sparkles :: js_string where
  \<comment> \<open>the label's marker: the character U+2728 and a space\<close>
  "sparkles = [0x2728, 0x20]"

definition makeCompletionItem ::
  "ambient \<Rightarrow> TextDocument \<Rightarrow> nat \<Rightarrow> Position \<Rightarrow> js_string \<Rightarrow> js_string \<Rightarrow> ResultEntry
    \<Rightarrow> ResultEntry list \<Rightarrow> error + CompletionItem" where
  "makeCompletionItem env document index position_arg detailMessage old_prefix_arg entry
      results_arg =
     and_then (Position_translate position_arg 0 (- int (length old_prefix_arg)))
       (\<lambda>range_from.
     and_then (Position_translate position_arg 0 (int (length (old_suffix entry))))
       (\<lambda>range_to.
     Inr \<lparr>label =
            (if isCapabilityEnabled env ON_BOARDING_CAPABILITY then sparkles else [])
              @ new_prefix entry,
          sortText = fromCharCode 0 @ fromCharCode index,
          insertText =
            (if new_suffix entry \<noteq> []
             then appendText (escapeTabStopSign (new_suffix entry))
                    (appendTabstop 0 (SnippetString (escapeTabStopSign (new_prefix entry))))
             else SnippetString (escapeTabStopSign (new_prefix entry))),
          filterText = new_prefix entry,
          preselect = (index = 0),
          item_kind = kind entry,
          item_range = new_Range range_from range_to,
          item_command =
            (if isTabNineAutoImportEnabled env
             then Some \<lparr>arguments =
                          [\<lparr>currentCompletion = new_prefix entry,
                            completions = results_arg,
                            completion_position = position_arg\<rparr>],
                        command = COMPLETION_IMPORTS env,
                        title = js ''accept completion''\<rparr>
             else None),
          item_documentation =
            (case documentation entry of
               None \<Rightarrow> None
             | Some d \<Rightarrow>
                 if truthy_documentation (Some d) then Some (formatDocumentation d) else None),
          item_detail =
            (case detail entry of
               None \<Rightarrow> detailMessage
             | Some d \<Rightarrow>
                 if truthy_string (Some d)
                    \<and> (detailMessage = DEFAULT_DETAIL env
                       \<or> includes_str detailMessage (js ''Your project contains''))
                 then d
                 else detailMessage)\<rparr>))"

subsection \<open>provideCompletionItems\<close>

text \<open>The request built for the service (lines 24 to 36).\<close>

definition autocomplete_request ::
  "ambient \<Rightarrow> TextDocument \<Rightarrow> Position \<Rightarrow> error + AutocompleteParams" where
  "autocomplete_request env document position_arg =
     and_then (offsetAt document position_arg)
       (\<lambda>offset.
     let before_start_offset = max 0 (offset - CHAR_LIMIT env);
         after_end_offset = offset + CHAR_LIMIT env
     in
     and_then (positionAt document before_start_offset)
       (\<lambda>before_start.
     and_then (positionAt document after_end_offset)
       (\<lambda>after_end.
     and_then (getText document (new_Range before_start position_arg))
       (\<lambda>before_text.
     and_then (getText document (new_Range position_arg after_end))
       (\<lambda>after_text.
     and_then (offsetAt document after_end)
       (\<lambda>end_offset.
     Inr \<lparr>filename = fileName document,
          before = before_text,
          after = after_text,
          region_includes_beginning = (before_start_offset = 0),
          region_includes_end = (end_offset \<noteq> after_end_offset),
          max_num_results = getMaxResults env\<rparr>))))))"

text \<open>The loop that builds \<open>detailMessage\<close> (lines 44 to 54).\<close>

fun detailMessage_loop :: "js_string \<Rightarrow> js_string list \<Rightarrow> js_string" where
  "detailMessage_loop detailMessage [] = detailMessage"
| "detailMessage_loop detailMessage (msg # msgs) =
     detailMessage_loop
       ((if detailMessage \<noteq> [] then detailMessage @ [newline] else detailMessage) @ msg) msgs"

definition detailMessage_of :: "ambient \<Rightarrow> AutocompleteResult \<Rightarrow> js_string" where
  "detailMessage_of env response =
     (let detailMessage =
            detailMessage_loop []
              (case user_message response of None \<Rightarrow> [] | Some msgs \<Rightarrow> msgs)
      in if detailMessage = [] then DEFAULT_DETAIL env else detailMessage)"

text \<open>
  The loop over the entries (lines 60 to 77): \<open>limit\<close> is \<open>None\<close> while it is
  \<open>undefined\<close>, and the loop breaks once \<open>index\<close> has reached it.
\<close>

fun completionList_loop ::
  "ambient \<Rightarrow> TextDocument \<Rightarrow> Position \<Rightarrow> js_string \<Rightarrow> AutocompleteResult \<Rightarrow> nat option
    \<Rightarrow> nat \<Rightarrow> ResultEntry list \<Rightarrow> error + CompletionItem list" where
  "completionList_loop env document position_arg detailMessage response limit index [] =
     Inr []"
| "completionList_loop env document position_arg detailMessage response limit index
      (entry # rest) =
     (case makeCompletionItem env document index position_arg detailMessage
             (old_prefix response) entry (results response) of
        Inl e \<Rightarrow> Inl e
      | Inr item \<Rightarrow>
          if (case limit of None \<Rightarrow> False | Some l \<Rightarrow> index + 1 \<ge> l) then Inr [item]
          else
            (case completionList_loop env document position_arg detailMessage response limit
                    (index + 1) rest of
               Inl e \<Rightarrow> Inl e
             | Inr others \<Rightarrow> Inr (item # others)))"

text \<open>The list of items for a response (lines 42 to 78).\<close>

definition completionList_of ::
  "ambient \<Rightarrow> TextDocument \<Rightarrow> Position \<Rightarrow> AutocompleteResult \<Rightarrow> error + CompletionItem list"
  where
  "completionList_of env document position_arg response =
     (if results response \<noteq> [] then
        and_then (showFew response document position_arg)
          (\<lambda>few.
             completionList_loop env document position_arg (detailMessage_of env response)
               response (if few then Some 1 else None) 0 (results response))
      else Inr [])"

text \<open>The body of the \<open>try\<close> block: \<open>Inr None\<close> is the plain \<open>return\<close>.\<close>

definition provideCompletionItems_try ::
  "ambient \<Rightarrow> TextDocument \<Rightarrow> Position \<Rightarrow> error + CompletionList option" where
  "provideCompletionItems_try env document position_arg =
     and_then (fst (completionIsAllowed env document position_arg))
       (\<lambda>allowed.
     if \<not> allowed then Inr None
     else
       and_then (autocomplete_request env document position_arg)
         (\<lambda>request.
       and_then (autocomplete env request)
         (\<lambda>response_opt.
       case response_opt of
         None \<Rightarrow> Inr None
       | Some response \<Rightarrow>
           and_then (completionList_of env document position_arg response)
             (\<lambda>completionList.
                Inr (Some \<lparr>items = completionList, isIncomplete = True\<rparr>)))))"

datatype console_line = Error_setting_up_request error

text \<open>
  The function itself: the \<open>try\<close> block, and the \<open>catch\<close> that writes one line to the
  console and falls through to the plain \<open>return\<close>. The outcome is \<open>Inl\<close> for an
  exception that leaves the function, \<open>Inr\<close> for the value the promise resolves to; the
  second component is what was written to the console. The cancellation token and the
  completion context are parameters the body never reads.
\<close>

definition provideCompletionItems ::
  "ambient \<Rightarrow> TextDocument \<Rightarrow> Position \<Rightarrow> 'token \<Rightarrow> 'context
    \<Rightarrow> (error + CompletionList option) \<times> console_line list" where
  "provideCompletionItems env document position_arg token context_arg =
     (case provideCompletionItems_try env document position_arg of
        Inl e \<Rightarrow> (Inr None, [Error_setting_up_request e])
      | Inr r \<Rightarrow> (Inr r, []))"

section \<open>The aggregated message as the specification words it\<close>

text \<open>
  The specification describes the aggregated message as the advisory strings joined in
  their given order with newline separators. This is that reading, to be compared with
  \<open>detailMessage_loop\<close>, which is the loop of the source.
\<close>

fun joined_with_newlines :: "js_string list \<Rightarrow> js_string" where
  "joined_with_newlines [] = []"
| "joined_with_newlines [msg] = msg"
| "joined_with_newlines (msg # msgs) = msg @ [newline] @ joined_with_newlines msgs"

section \<open>Concrete surroundings for evaluation\<close>

text \<open>
  A document of one line of text, a regular expression engine for patterns without special
  characters (the pattern matches where it occurs in the text; the pattern \<open>(\<close> does not
  compile), and surroundings with no configuration, no capability and a service that has
  nothing to suggest. The theorems below are evaluated on them and on variations of them.
\<close>

definition one_line_document :: "js_string \<Rightarrow> js_string \<Rightarrow> TextDocument" where
  "one_line_document name txt =
     \<lparr>fileName = name,
      offsetAt = (\<lambda>p. Inr (int (min (character p) (length txt)))),
      positionAt = (\<lambda>n. Inr \<lparr>line = 0, character = min (nat n) (length txt)\<rparr>),
      getText =
        (\<lambda>r. Inr (take (character (range_end r) - character (range_start r))
                     (drop (character (range_start r)) txt))),
      lineAt =
        (\<lambda>p. if line p = 0
              then Inr \<lparr>textline_range =
                         new_Range \<lparr>line = 0, character = 0\<rparr>
                           \<lparr>line = 0, character = length txt\<rparr>\<rparr>
              else Inl (Thrown (js ''Illegal value for line'')))\<rparr>"

definition literal_test :: "js_string \<Rightarrow> js_string \<Rightarrow> error + bool" where
  "literal_test r s =
     (if r = js ''('' then Inl (Thrown (js ''SyntaxError'')) else Inr (includes_str s r))"

definition sample_env :: ambient where
  "sample_env =
     \<lparr>configuration_get = (\<lambda>k. None),
      isCapabilityEnabled = (\<lambda>c. False),
      isTabNineAutoImportEnabled = False,
      autocomplete = (\<lambda>request. Inr None),
      RegExp_test = literal_test,
      CHAR_LIMIT = 100000,
      DEFAULT_DETAIL = js ''TabNine'',
      MAX_NUM_RESULTS = 5,
      COMPLETION_IMPORTS = js ''TabNine::completionImports''\<rparr>"

definition sample_config :: "js_string list \<Rightarrow> js_string \<Rightarrow> js_string list option" where
  \<comment> \<open>a configuration that sets tabnine.disable_line_regex and nothing else\<close>
  "sample_config patterns key =
     (if key = js ''tabnine.disable_line_regex'' then Some patterns else None)"

definition sample_file_config :: "js_string list \<Rightarrow> js_string \<Rightarrow> js_string list option"
  where
  \<comment> \<open>a configuration that sets tabnine.disable_file_regex and nothing else\<close>
  "sample_file_config patterns key =
     (if key = js ''tabnine.disable_file_regex'' then Some patterns else None)"

definition sample_entry :: "js_string \<Rightarrow> ResultEntry" where
  "sample_entry s =
     \<lparr>new_prefix = s, old_suffix = [], new_suffix = [], kind = None,
      documentation = None, detail = None\<rparr>"

section \<open>Properties\<close>

subsection \<open>Sequencing and the editor's positions\<close>

lemma and_then_simps [simp]:
  "and_then (Inl e) f = Inl e"
  "and_then (Inr v) f = f v"
  by (simp_all add: and_then_def)

lemma Position_translate_left:
  "Position_translate p 0 (- int n) =
     (if n \<le> character p then Inr \<lparr>line = line p, character = character p - n\<rparr>
      else Inl IllegalArgument)"
  by (auto simp: Position_translate_def Let_def nat_diff_distrib')

lemma Position_translate_right:
  "Position_translate p 0 (int n) = Inr \<lparr>line = line p, character = character p + n\<rparr>"
  by (simp add: Position_translate_def Let_def nat_add_distrib)

lemma new_Range_ordered:
  "new_Range \<lparr>line = l, character = c - m\<rparr> \<lparr>line = l, character = c + n\<rparr>
     = \<lparr>range_start = \<lparr>line = l, character = c - m\<rparr>,
        range_end = \<lparr>line = l, character = c + n\<rparr>\<rparr>"
  by (auto simp: new_Range_def isBefore_def)

lemma makeCompletionItem_fails:
  "\<not> length op \<le> character p \<Longrightarrow>
   makeCompletionItem env document index p detailMessage op entry rs = Inl IllegalArgument"
  by (simp add: makeCompletionItem_def Position_translate_left)

lemma makeCompletionItem_succeeds:
  "length op \<le> character p \<Longrightarrow>
   makeCompletionItem env document index p detailMessage op entry rs =
     Inr \<lparr>label =
            (if isCapabilityEnabled env ON_BOARDING_CAPABILITY then sparkles else [])
              @ new_prefix entry,
          sortText = fromCharCode 0 @ fromCharCode index,
          insertText =
            (if new_suffix entry \<noteq> []
             then appendText (escapeTabStopSign (new_suffix entry))
                    (appendTabstop 0 (SnippetString (escapeTabStopSign (new_prefix entry))))
             else SnippetString (escapeTabStopSign (new_prefix entry))),
          filterText = new_prefix entry,
          preselect = (index = 0),
          item_kind = kind entry,
          item_range =
            \<lparr>range_start = \<lparr>line = line p, character = character p - length op\<rparr>,
             range_end =
               \<lparr>line = line p, character = character p + length (old_suffix entry)\<rparr>\<rparr>,
          item_command =
            (if isTabNineAutoImportEnabled env
             then Some \<lparr>arguments =
                          [\<lparr>currentCompletion = new_prefix entry,
                            completions = rs,
                            completion_position = p\<rparr>],
                        command = COMPLETION_IMPORTS env,
                        title = js ''accept completion''\<rparr>
             else None),
          item_documentation =
            (case documentation entry of
               None \<Rightarrow> None
             | Some d \<Rightarrow>
                 if truthy_documentation (Some d) then Some (formatDocumentation d) else None),
          item_detail =
            (case detail entry of
               None \<Rightarrow> detailMessage
             | Some d \<Rightarrow>
                 if truthy_string (Some d)
                    \<and> (detailMessage = DEFAULT_DETAIL env
                       \<or> includes_str detailMessage (js ''Your project contains''))
                 then d
                 else detailMessage)\<rparr>"
  by (simp add: makeCompletionItem_def Position_translate_left Position_translate_right
      new_Range_ordered del: not_None_eq split del: if_split cong: if_cong option.case_cong)


lemma makeCompletionItem_fields:
  assumes "makeCompletionItem env document index p detailMessage op entry rs = Inr item"
  shows "length op \<le> character p"
    and "label item =
          (if isCapabilityEnabled env ON_BOARDING_CAPABILITY then sparkles else [])
            @ new_prefix entry"
    and "sortText item = fromCharCode 0 @ fromCharCode index"
    and "insertText item =
          (if new_suffix entry \<noteq> []
           then appendText (escapeTabStopSign (new_suffix entry))
                  (appendTabstop 0 (SnippetString (escapeTabStopSign (new_prefix entry))))
           else SnippetString (escapeTabStopSign (new_prefix entry)))"
    and "filterText item = new_prefix entry"
    and "preselect item = (index = 0)"
    and "item_range item =
          \<lparr>range_start = \<lparr>line = line p, character = character p - length op\<rparr>,
           range_end = \<lparr>line = line p, character = character p + length (old_suffix entry)\<rparr>\<rparr>"
    and "item_detail item =
          (case detail entry of
             None \<Rightarrow> detailMessage
           | Some d \<Rightarrow>
               if truthy_string (Some d)
                  \<and> (detailMessage = DEFAULT_DETAIL env
                     \<or> includes_str detailMessage (js ''Your project contains''))
               then d else detailMessage)"
proof -
  show le: "length op \<le> character p"
    using assms makeCompletionItem_fails [of op p env document index detailMessage entry rs]
    by (cases "length op \<le> character p") simp_all
  note built = makeCompletionItem_succeeds [OF le, of env document index detailMessage entry rs]
  have item: "item = projr (makeCompletionItem env document index p detailMessage op entry rs)"
    using assms by simp
  show "label item =
          (if isCapabilityEnabled env ON_BOARDING_CAPABILITY then sparkles else [])
            @ new_prefix entry"
    unfolding item built by (simp split del: if_split)
  show "sortText item = fromCharCode 0 @ fromCharCode index"
    unfolding item built by (simp split del: if_split)
  show "insertText item =
          (if new_suffix entry \<noteq> []
           then appendText (escapeTabStopSign (new_suffix entry))
                  (appendTabstop 0 (SnippetString (escapeTabStopSign (new_prefix entry))))
           else SnippetString (escapeTabStopSign (new_prefix entry)))"
    unfolding item built by (simp split del: if_split)
  show "filterText item = new_prefix entry"
    unfolding item built by (simp split del: if_split)
  show "preselect item = (index = 0)"
    unfolding item built by (simp split del: if_split)
  show "item_range item =
          \<lparr>range_start = \<lparr>line = line p, character = character p - length op\<rparr>,
           range_end = \<lparr>line = line p, character = character p + length (old_suffix entry)\<rparr>\<rparr>"
    unfolding item built by (simp split del: if_split)
  show "item_detail item =
          (case detail entry of
             None \<Rightarrow> detailMessage
           | Some d \<Rightarrow>
               if truthy_string (Some d)
                  \<and> (detailMessage = DEFAULT_DETAIL env
                     \<or> includes_str detailMessage (js ''Your project contains''))
               then d else detailMessage)"
    unfolding item built by (simp split del: if_split)
qed


lemma makeCompletionItem_returns:
  "length op \<le> character p \<Longrightarrow>
   makeCompletionItem env document index p detailMessage op entry rs
     = Inr (projr (makeCompletionItem env document index p detailMessage op entry rs))"
  by (simp add: makeCompletionItem_succeeds split del: if_split)

subsection \<open>Evaluation on the concrete surroundings\<close>

lemma sample_env_no_regex:
  "disable_line_regex (sample_env\<lparr>autocomplete := a, isCapabilityEnabled := c\<rparr>) = []"
  "disable_file_regex (sample_env\<lparr>autocomplete := a, isCapabilityEnabled := c\<rparr>) = []"
  "disable_line_regex sample_env = []"
  "disable_file_regex sample_env = []"
  by (simp_all add: disable_line_regex_def disable_file_regex_def sample_env_def)

lemma length_js: "length (js s) = length s"
  by (simp add: js_def)

lemma one_line_request:
  "\<exists>request. autocomplete_request env (one_line_document name txt) p = Inr request"
  by (simp add: autocomplete_request_def one_line_document_def Let_def)

subsection \<open>getMaxResults\<close>

text \<open>
  C8. For every combination of capability flags, getMaxResults returns 1 when the
  single-result capability is enabled, 2 when the two-result capability is enabled and
  the single-result capability is not, and the default MAX_NUM_RESULTS otherwise.
\<close>

theorem getMaxResults_policy:
  "(isCapabilityEnabled env SUGGESTIONS_SINGLE \<longrightarrow> getMaxResults env = 1)
   \<and> (\<not> isCapabilityEnabled env SUGGESTIONS_SINGLE \<and> isCapabilityEnabled env SUGGESTIONS_TWO
        \<longrightarrow> getMaxResults env = 2)
   \<and> (\<not> isCapabilityEnabled env SUGGESTIONS_SINGLE \<and> \<not> isCapabilityEnabled env SUGGESTIONS_TWO
        \<longrightarrow> getMaxResults env = MAX_NUM_RESULTS env)"
  by (simp add: getMaxResults_def)

theorem getMaxResults_policy_witness:
  "getMaxResults (sample_env\<lparr>isCapabilityEnabled := (\<lambda>c. True)\<rparr>) = 1
   \<and> getMaxResults (sample_env\<lparr>isCapabilityEnabled := (\<lambda>c. c = SUGGESTIONS_TWO)\<rparr>) = 2
   \<and> getMaxResults sample_env = 5"
  using getMaxResults_policy [of "sample_env\<lparr>isCapabilityEnabled := (\<lambda>c. True)\<rparr>"]
    getMaxResults_policy [of "sample_env\<lparr>isCapabilityEnabled := (\<lambda>c. c = SUGGESTIONS_TWO)\<rparr>"]
    getMaxResults_policy [of sample_env]
  by (simp add: sample_env_def)

subsection \<open>escapeTabStopSign\<close>

lemma escapeTabStopSign_append:
  "escapeTabStopSign (xs @ ys) = escapeTabStopSign xs @ escapeTabStopSign ys"
  by (induction xs) simp_all

lemma escapeTabStopSign_no_dollar:
  "dollar \<notin> set s \<Longrightarrow> escapeTabStopSign s = s"
  by (induction s) auto

text \<open>
  C4. escapeTabStopSign replaces every dollar sign by a backslash and a dollar sign: it
  maps \<open>a$b$c\<close> to \<open>a\$b\$c\<close>, leaves a string without a dollar sign unchanged, and
  rewrites each occurrence wherever it stands. In an item, the snippet is built from the
  escaped new_prefix and, when there is a new_suffix, a tab stop and the escaped
  new_suffix, each escaped once.
\<close>

theorem escapeTabStopSign_spec:
  "escapeTabStopSign (js ''a$b$c'') = [0x61, 0x5C, 0x24, 0x62, 0x5C, 0x24, 0x63]
   \<and> (dollar \<notin> set s \<longrightarrow> escapeTabStopSign s = s)
   \<and> escapeTabStopSign (xs @ dollar # ys)
       = escapeTabStopSign xs @ backslash # dollar # escapeTabStopSign ys
   \<and> (makeCompletionItem env document index p detailMessage op entry rs = Inr item \<longrightarrow>
        insertText item =
          (if new_suffix entry \<noteq> []
           then appendText (escapeTabStopSign (new_suffix entry))
                  (appendTabstop 0 (SnippetString (escapeTabStopSign (new_prefix entry))))
           else SnippetString (escapeTabStopSign (new_prefix entry))))"
proof -
  have "escapeTabStopSign (js ''a$b$c'') = [0x61, 0x5C, 0x24, 0x62, 0x5C, 0x24, 0x63]"
    by (simp add: js_def dollar_def backslash_def)
  moreover have "escapeTabStopSign (xs @ dollar # ys)
      = escapeTabStopSign xs @ backslash # dollar # escapeTabStopSign ys"
    by (simp add: escapeTabStopSign_append)
  ultimately show ?thesis
    using escapeTabStopSign_no_dollar [of s] makeCompletionItem_fields(4) by blast
qed

theorem escapeTabStopSign_spec_witness:
  "escapeTabStopSign (js ''abc'') = js ''abc''
   \<and> insertText
        (projr (makeCompletionItem sample_env (one_line_document (js ''f.ts'') (js ''ab''))
           0 \<lparr>line = 0, character = 2\<rparr> (js ''TabNine'') (js ''b'')
           ((sample_entry (js ''b$''))\<lparr>new_suffix := js ''$)''\<rparr>) []))
       = appendText [0x5C, 0x24, 0x29] (appendTabstop 0 (SnippetString [0x62, 0x5C, 0x24]))"
proof -
  let ?item =
    "projr (makeCompletionItem sample_env (one_line_document (js ''f.ts'') (js ''ab''))
       0 \<lparr>line = 0, character = 2\<rparr> (js ''TabNine'') (js ''b'')
       ((sample_entry (js ''b$''))\<lparr>new_suffix := js ''$)''\<rparr>) [])"
  have made:
    "makeCompletionItem sample_env (one_line_document (js ''f.ts'') (js ''ab''))
       0 \<lparr>line = 0, character = 2\<rparr> (js ''TabNine'') (js ''b'')
       ((sample_entry (js ''b$''))\<lparr>new_suffix := js ''$)''\<rparr>) [] = Inr ?item"
    by (rule makeCompletionItem_returns) (simp add: js_def)
  have no_dollar: "dollar \<notin> set (js ''abc'')"
    by (simp add: js_def dollar_def)
  from escapeTabStopSign_spec [of "js ''abc''" "[]" "[]" sample_env
      "one_line_document (js ''f.ts'') (js ''ab'')" 0 "\<lparr>line = 0, character = 2\<rparr>"
      "js ''TabNine''" "js ''b''" "(sample_entry (js ''b$''))\<lparr>new_suffix := js ''$)''\<rparr>"
      "[]" ?item] made no_dollar
  show ?thesis
    by (simp add: sample_entry_def js_def dollar_def backslash_def)
qed

subsection \<open>The ordering key\<close>

lemma getMaxResults_le: "getMaxResults env \<le> max 2 (MAX_NUM_RESULTS env)"
  by (auto simp: getMaxResults_def max_def)

lemma fromCharCode_less:
  "i < j \<Longrightarrow> j < 65536 \<Longrightarrow> fromCharCode 0 @ fromCharCode i < fromCharCode 0 @ fromCharCode j"
  by (simp add: fromCharCode_def of_nat_word_less_iff take_bit_nat_eq_self)

lemma fromCharCode_wraps: "fromCharCode 65536 = fromCharCode 0"
  by (simp add: fromCharCode_def)

text \<open>
  C5. The ordering key of index i is the code unit 0 followed by the code unit i. When
  the default maximum MAX_NUM_RESULTS (a constant of another module) is below
  \<open>2 ^ 16\<close>, then for all indices i < j up to getMaxResults the key of i is strictly
  smaller than the key of j in the lexicographic order, whatever the entries are, so the
  keys of the indices up to getMaxResults are distinct and in the order of the indices.
\<close>

theorem sortText_order:
  assumes "MAX_NUM_RESULTS env < 65536"
    and "i < j"
    and "j \<le> getMaxResults env"
    and "makeCompletionItem env document i p detailMessage op entry rs = Inr item_i"
    and "makeCompletionItem env document' j p' detailMessage' op' entry' rs' = Inr item_j"
  shows "sortText item_i = [0, word_of_nat i] \<and> sortText item_j = [0, word_of_nat j]
         \<and> sortText item_i < sortText item_j \<and> sortText item_i \<noteq> sortText item_j"
proof -
  have "j < 65536"
    using assms(1,3) getMaxResults_le [of env] by simp
  then have "fromCharCode 0 @ fromCharCode i < fromCharCode 0 @ fromCharCode j"
    using assms(2) by (rule fromCharCode_less [rotated])
  moreover have "sortText item_i = fromCharCode 0 @ fromCharCode i"
    using assms(4) by (rule makeCompletionItem_fields(3))
  moreover have "sortText item_j = fromCharCode 0 @ fromCharCode j"
    using assms(5) by (rule makeCompletionItem_fields(3))
  ultimately show ?thesis
    by (simp add: fromCharCode_def)
qed

theorem sortText_order_witness:
  "MAX_NUM_RESULTS sample_env < 65536 \<and> (3::nat) < 4 \<and> 4 \<le> getMaxResults sample_env
   \<and> sortText (projr (makeCompletionItem sample_env (one_line_document [] []) 3
          \<lparr>line = 0, character = 0\<rparr> [] [] (sample_entry (js ''zz'')) []))
     < sortText (projr (makeCompletionItem sample_env (one_line_document [] []) 4
          \<lparr>line = 0, character = 0\<rparr> [] [] (sample_entry (js ''aa'')) []))"
proof -
  have h: "MAX_NUM_RESULTS sample_env < 65536" "(3::nat) < 4" "4 \<le> getMaxResults sample_env"
    by (simp_all add: sample_env_def getMaxResults_def)
  have m3: "makeCompletionItem sample_env (one_line_document [] []) 3
          \<lparr>line = 0, character = 0\<rparr> [] [] (sample_entry (js ''zz'')) []
      = Inr (projr (makeCompletionItem sample_env (one_line_document [] []) 3
          \<lparr>line = 0, character = 0\<rparr> [] [] (sample_entry (js ''zz'')) []))"
    by (rule makeCompletionItem_returns) simp
  have m4: "makeCompletionItem sample_env (one_line_document [] []) 4
          \<lparr>line = 0, character = 0\<rparr> [] [] (sample_entry (js ''aa'')) []
      = Inr (projr (makeCompletionItem sample_env (one_line_document [] []) 4
          \<lparr>line = 0, character = 0\<rparr> [] [] (sample_entry (js ''aa'')) []))"
    by (rule makeCompletionItem_returns) simp
  from sortText_order [OF h m3 m4] h show ?thesis
    by blast
qed

subsection \<open>formatDocumentation\<close>

lemma formatDocumentation_cases:
  "formatDocumentation (DocString s) = ItemString s"
  "k = js ''markdown'' \<Longrightarrow>
     formatDocumentation (DocSpec (MarkdownStringSpec k v)) = ItemMarkdownString v"
  "k \<noteq> js ''markdown'' \<Longrightarrow> k \<noteq> [] \<Longrightarrow>
     formatDocumentation (DocSpec (MarkdownStringSpec k v)) = ItemString v"
  "formatDocumentation (DocSpec (MarkdownStringSpec [] v)) = ItemSpec (MarkdownStringSpec [] v)"
  by (simp_all add: formatDocumentation_def js_def)

text \<open>
  C6. At an object whose tag is the empty string, isMarkdownStringSpec answers no, and
  formatDocumentation hands the object back as it is: the result is neither the plain
  text of its value field nor a markdown string.
\<close>

theorem formatDocumentation_empty_kind:
  "isMarkdownStringSpec (DocSpec (MarkdownStringSpec [] (js ''v''))) = False
   \<and> formatDocumentation (DocSpec (MarkdownStringSpec [] (js ''v'')))
       = ItemSpec (MarkdownStringSpec [] (js ''v''))
   \<and> formatDocumentation (DocSpec (MarkdownStringSpec [] (js ''v''))) \<noteq> ItemString (js ''v'')"
  by (simp add: formatDocumentation_def)

subsection \<open>String tests\<close>


lemma take_eq_iff: "take (length t) s = t \<longleftrightarrow> (\<exists>ys. s = t @ ys)"
proof
  assume "take (length t) s = t"
  with append_take_drop_id [of "length t" s] have "s = t @ drop (length t) s"
    by simp
  then show "\<exists>ys. s = t @ ys" ..
next
  assume "\<exists>ys. s = t @ ys"
  then show "take (length t) s = t"
    by auto
qed

lemma includes_str_iff: "includes_str s t \<longleftrightarrow> (\<exists>xs ys. s = xs @ t @ ys)"
proof (induction s)
  case Nil
  then show ?case by auto
next
  case (Cons c cs)
  have "take (length t) (c # cs) = t \<longleftrightarrow> (\<exists>ys. c # cs = t @ ys)"
    by (rule take_eq_iff)
  moreover have "(\<exists>xs ys. c # cs = xs @ t @ ys)
      \<longleftrightarrow> (\<exists>ys. c # cs = t @ ys) \<or> (\<exists>xs ys. cs = xs @ t @ ys)"
  proof
    assume "\<exists>xs ys. c # cs = xs @ t @ ys"
    then obtain xs ys where eq: "c # cs = xs @ t @ ys" by blast
    show "(\<exists>ys. c # cs = t @ ys) \<or> (\<exists>xs ys. cs = xs @ t @ ys)"
    proof (cases xs)
      case Nil
      with eq show ?thesis by auto
    next
      case (Cons x xs')
      with eq have "cs = xs' @ t @ ys" by simp
      then show ?thesis by blast
    qed
  next
    assume "(\<exists>ys. c # cs = t @ ys) \<or> (\<exists>xs ys. cs = xs @ t @ ys)"
    then show "\<exists>xs ys. c # cs = xs @ t @ ys"
    proof
      assume "\<exists>ys. c # cs = t @ ys"
      then obtain ys where "c # cs = [] @ t @ ys" by auto
      then show ?thesis by blast
    next
      assume "\<exists>xs ys. cs = xs @ t @ ys"
      then obtain xs ys where "c # cs = (c # xs) @ t @ ys" by auto
      then show ?thesis by blast
    qed
  qed
  ultimately show ?case
    using Cons.IH by simp
qed

subsection \<open>The aggregated message and an item's detail\<close>

lemma joined_with_newlines_Cons:
  "joined_with_newlines (msg # msgs) = msg @ concat (map ((#) newline) msgs)"
  by (induction msgs arbitrary: msg) simp_all

lemma detailMessage_loop_started:
  "acc \<noteq> [] \<Longrightarrow> detailMessage_loop acc msgs = acc @ concat (map ((#) newline) msgs)"
  by (induction msgs arbitrary: acc) simp_all

lemma detailMessage_loop_empty:
  "detailMessage_loop [] msgs = joined_with_newlines (dropWhile (\<lambda>m. m = []) msgs)"
proof (induction msgs)
  case Nil
  then show ?case by simp
next
  case (Cons msg msgs)
  show ?case
  proof (cases "msg = []")
    case True
    with Cons show ?thesis by simp
  next
    case False
    then show ?thesis
      by (simp add: detailMessage_loop_started joined_with_newlines_Cons)
  qed
qed

lemma joined_dropWhile_empty:
  "joined_with_newlines (dropWhile (\<lambda>m. m = []) msgs) = []
     \<longleftrightarrow> dropWhile (\<lambda>m. m = []) msgs = []"
proof (cases "dropWhile (\<lambda>m. m = []) msgs")
  case Nil
  show ?thesis unfolding Nil by simp
next
  case (Cons m ms)
  with hd_dropWhile [of "\<lambda>m. m = []" msgs] have "m \<noteq> []"
    by simp
  with Cons show ?thesis
    by (simp add: joined_with_newlines_Cons)
qed

lemma detailMessage_of_eq:
  "detailMessage_of env response =
     (let msgs = dropWhile (\<lambda>m. m = [])
                   (case user_message response of None \<Rightarrow> [] | Some ms \<Rightarrow> ms)
      in if msgs = [] then DEFAULT_DETAIL env else joined_with_newlines msgs)"
  by (simp add: detailMessage_of_def Let_def detailMessage_loop_empty joined_dropWhile_empty)

text \<open>
  C7, as the specification states it, fails where the advisory strings start with an
  empty string: the loop adds a separator only once the message is not empty, so for the
  strings \<open>""\<close> and \<open>"b"\<close> the message is \<open>"b"\<close>, while joining them with a newline
  gives a newline followed by \<open>"b"\<close>.
\<close>

theorem detailMessage_not_joined:
  "detailMessage_of sample_env
      \<lparr>old_prefix = [], results = [], user_message = Some [[], js ''b'']\<rparr> = js ''b''
   \<and> joined_with_newlines [[], js ''b''] = newline # js ''b''
   \<and> detailMessage_of sample_env
        \<lparr>old_prefix = [], results = [], user_message = Some [[], js ''b'']\<rparr>
      \<noteq> joined_with_newlines [[], js ''b'']"
  by (simp add: detailMessage_of_def js_def)

text \<open>
  C7, amended. The aggregated message is the advisory strings without the empty strings
  at the head of the list, joined in their order with newline separators, or
  DEFAULT_DETAIL when nothing is left (no list, an empty list, or empty strings only);
  when no advisory string is empty this is the plain join, and for the strings \<open>"a"\<close>
  and \<open>"b"\<close> it is \<open>"a\nb"\<close>. An item's detail is the entry's own detail when that is
  present and not empty and the message is DEFAULT_DETAIL or contains
  \<open>Your project contains\<close>, and the message otherwise.
\<close>

theorem detailMessage_spec:
  "detailMessage_of env response =
     (let msgs = dropWhile (\<lambda>m. m = [])
                   (case user_message response of None \<Rightarrow> [] | Some ms \<Rightarrow> ms)
      in if msgs = [] then DEFAULT_DETAIL env else joined_with_newlines msgs)
   \<and> (\<forall>msgs. user_message response = Some msgs \<and> msgs \<noteq> [] \<and> [] \<notin> set msgs \<longrightarrow>
         detailMessage_of env response = joined_with_newlines msgs)
   \<and> (user_message response = Some [js ''a'', js ''b''] \<longrightarrow>
         detailMessage_of env response = [0x61, 0x0A, 0x62])
   \<and> (makeCompletionItem env document index p detailMessage op entry rs = Inr item \<longrightarrow>
        item_detail item =
          (case detail entry of
             None \<Rightarrow> detailMessage
           | Some d \<Rightarrow>
               if d \<noteq> []
                  \<and> (detailMessage = DEFAULT_DETAIL env
                     \<or> (\<exists>xs ys. detailMessage = xs @ js ''Your project contains'' @ ys))
               then d else detailMessage))"
proof -
  have plain: "\<forall>msgs. user_message response = Some msgs \<and> msgs \<noteq> [] \<and> [] \<notin> set msgs \<longrightarrow>
         detailMessage_of env response = joined_with_newlines msgs"
  proof (intro allI impI)
    fix msgs
    assume a: "user_message response = Some msgs \<and> msgs \<noteq> [] \<and> [] \<notin> set msgs"
    then have "dropWhile (\<lambda>m. m = []) msgs = msgs"
      by (cases msgs) auto
    with a show "detailMessage_of env response = joined_with_newlines msgs"
      by (simp add: detailMessage_of_eq)
  qed
  have example: "user_message response = Some [js ''a'', js ''b''] \<longrightarrow>
         detailMessage_of env response = [0x61, 0x0A, 0x62]"
    by (simp add: detailMessage_of_def js_def newline_def)
  have own: "makeCompletionItem env document index p detailMessage op entry rs = Inr item \<longrightarrow>
        item_detail item =
          (case detail entry of
             None \<Rightarrow> detailMessage
           | Some d \<Rightarrow>
               if d \<noteq> []
                  \<and> (detailMessage = DEFAULT_DETAIL env
                     \<or> (\<exists>xs ys. detailMessage = xs @ js ''Your project contains'' @ ys))
               then d else detailMessage)"
    using makeCompletionItem_fields(8) [of env document index p detailMessage op entry rs item]
    by (simp add: includes_str_iff truthy_string_def split: option.splits)
  from detailMessage_of_eq plain example own show ?thesis
    by blast
qed

theorem detailMessage_spec_witness:
  "detailMessage_of sample_env
      \<lparr>old_prefix = [], results = [], user_message = Some [js ''a'', js ''b'']\<rparr>
     = [0x61, 0x0A, 0x62]
   \<and> detailMessage_of sample_env
        \<lparr>old_prefix = [], results = [], user_message = Some [js ''a'', js ''b'']\<rparr>
     = joined_with_newlines [js ''a'', js ''b'']
   \<and> item_detail
        (projr (makeCompletionItem sample_env (one_line_document (js ''f.ts'') (js ''ab''))
           0 \<lparr>line = 0, character = 2\<rparr> (js ''TabNine'') (js ''b'')
           ((sample_entry (js ''bar''))\<lparr>detail := Some (js ''12%'')\<rparr>) []))
     = js ''12%''"
proof -
  let ?r = "\<lparr>old_prefix = [], results = [], user_message = Some [js ''a'', js ''b'']\<rparr>"
  let ?mk = "makeCompletionItem sample_env (one_line_document (js ''f.ts'') (js ''ab''))
           0 \<lparr>line = 0, character = 2\<rparr> (js ''TabNine'') (js ''b'')
           ((sample_entry (js ''bar''))\<lparr>detail := Some (js ''12%'')\<rparr>) []"
  have made: "?mk = Inr (projr ?mk)"
    by (rule makeCompletionItem_returns) (simp add: js_def)
  have h1: "user_message ?r = Some [js ''a'', js ''b''] \<and> [js ''a'', js ''b''] \<noteq> []
      \<and> [] \<notin> set [js ''a'', js ''b'']"
    by (simp add: js_def)
  have h2: "js ''TabNine'' = DEFAULT_DETAIL sample_env"
    by (simp add: sample_env_def)
  from detailMessage_spec [of sample_env ?r
      "one_line_document (js ''f.ts'') (js ''ab'')" 0 "\<lparr>line = 0, character = 2\<rparr>"
      "js ''TabNine''" "js ''b''" "(sample_entry (js ''bar''))\<lparr>detail := Some (js ''12%'')\<rparr>"
      "[]" "projr ?mk"] made h1 h2
  show ?thesis
    by (simp add: sample_entry_def js_def newline_def)
qed

subsection \<open>showFew and the list of items\<close>

lemma showFew_eq:
  "showFew response document p =
     (if \<exists>entry \<in> set (results response).
            truthy_kind (kind entry) \<or> truthy_documentation (documentation entry)
      then Inr False
      else if length (old_prefix response) \<le> character p
      then and_then
             (lineAt document
                \<lparr>line = line p, character = character p - length (old_prefix response)\<rparr>)
             (\<lambda>textLine.
                and_then
                  (getText document
                     (new_Range (range_start (textline_range textLine))
                        \<lparr>line = line p,
                         character = character p - length (old_prefix response)\<rparr>))
                  (\<lambda>tail. Inr (endsWith tail (js ''.'') \<or> endsWith tail (js ''::''))))
      else Inl IllegalArgument)"
  by (simp add: showFew_def Position_translate_left list_ex_iff)








subsection \<open>The items of a response, one by one\<close>

lemma completionList_loop_nth:
  "completionList_loop env document p detailMessage response limit index es = Inr its \<Longrightarrow>
   k < length its \<Longrightarrow>
   k < length es
   \<and> makeCompletionItem env document (index + k) p detailMessage (old_prefix response)
        (es ! k) (results response) = Inr (its ! k)"
proof (induction es arbitrary: index its k)
  case Nil
  then show ?case by simp
next
  case (Cons e rest)
  from Cons.prems(1) obtain item where
    made: "makeCompletionItem env document index p detailMessage (old_prefix response)
             e (results response) = Inr item"
    by (cases "makeCompletionItem env document index p detailMessage (old_prefix response)
             e (results response)") simp_all
  show ?case
  proof (cases "case limit of None \<Rightarrow> False | Some l \<Rightarrow> index + 1 \<ge> l")
    case True
    with Cons.prems(1) made have "its = [item]"
      by simp
    with Cons.prems(2) made show ?thesis
      by simp
  next
    case False
    with Cons.prems(1) made obtain others where
      rest: "completionList_loop env document p detailMessage response limit (index + 1) rest
               = Inr others"
      and its: "its = item # others"
      by (cases "completionList_loop env document p detailMessage response limit (index + 1)
                   rest") auto
    show ?thesis
    proof (cases k)
      case 0
      with made its show ?thesis by simp
    next
      case (Suc k')
      with Cons.prems(2) its have "k' < length others"
        by simp
      from Cons.IH [OF rest this] Suc its show ?thesis
        by simp
    qed
  qed
qed

lemma completionList_loop_unlimited_length:
  "completionList_loop env document p detailMessage response None index es = Inr its \<Longrightarrow>
   length its = length es"
proof (induction es arbitrary: index its)
  case Nil
  then show ?case by simp
next
  case (Cons e rest)
  from Cons.prems obtain item where
    made: "makeCompletionItem env document index p detailMessage (old_prefix response)
             e (results response) = Inr item"
    by (cases "makeCompletionItem env document index p detailMessage (old_prefix response)
             e (results response)") simp_all
  with Cons.prems obtain others where
    rest: "completionList_loop env document p detailMessage response None (index + 1) rest
             = Inr others"
    and its: "its = item # others"
    by (cases "completionList_loop env document p detailMessage response None (index + 1)
                 rest") auto
  from Cons.IH [OF rest] its show ?case
    by simp
qed

lemma completionList_of_nth:
  assumes "completionList_of env document p response = Inr its" and "k < length its"
  shows "k < length (results response)
   \<and> makeCompletionItem env document k p (detailMessage_of env response)
        (old_prefix response) (results response ! k) (results response) = Inr (its ! k)"
proof (cases "results response = []")
  case True
  with assms show ?thesis
    by (simp add: completionList_of_def)
next
  case False
  with assms(1) obtain few where
    "completionList_loop env document p (detailMessage_of env response) response
       (if few then Some 1 else None) 0 (results response) = Inr its"
    by (cases "showFew response document p") (simp_all add: completionList_of_def)
  from completionList_loop_nth [OF this assms(2)] show ?thesis
    by simp
qed

lemma autocomplete_request_Inr:
  assumes "autocomplete_request env document p = Inr request"
  obtains offset before_start after_end end_offset where
    "offsetAt document p = Inr offset"
    "positionAt document (max 0 (offset - CHAR_LIMIT env)) = Inr before_start"
    "positionAt document (offset + CHAR_LIMIT env) = Inr after_end"
    "getText document (new_Range before_start p) = Inr (before request)"
    "getText document (new_Range p after_end) = Inr (after request)"
    "offsetAt document after_end = Inr end_offset"
    "filename request = fileName document"
    "region_includes_beginning request = (max 0 (offset - CHAR_LIMIT env) = 0)"
    "region_includes_end request = (end_offset \<noteq> offset + CHAR_LIMIT env)"
    "max_num_results request = getMaxResults env"
proof -
  from assms obtain offset where
    1: "offsetAt document p = Inr offset"
    by (cases "offsetAt document p") (simp_all add: autocomplete_request_def)
  from assms 1 obtain before_start where
    2: "positionAt document (max 0 (offset - CHAR_LIMIT env)) = Inr before_start"
    by (cases "positionAt document (max 0 (offset - CHAR_LIMIT env))")
      (simp_all add: autocomplete_request_def Let_def)
  from assms 1 2 obtain after_end where
    3: "positionAt document (offset + CHAR_LIMIT env) = Inr after_end"
    by (cases "positionAt document (offset + CHAR_LIMIT env)")
      (simp_all add: autocomplete_request_def Let_def)
  from assms 1 2 3 obtain before_text where
    4: "getText document (new_Range before_start p) = Inr before_text"
    by (cases "getText document (new_Range before_start p)")
      (simp_all add: autocomplete_request_def Let_def)
  from assms 1 2 3 4 obtain after_text where
    5: "getText document (new_Range p after_end) = Inr after_text"
    by (cases "getText document (new_Range p after_end)")
      (simp_all add: autocomplete_request_def Let_def)
  from assms 1 2 3 4 5 obtain end_offset where
    6: "offsetAt document after_end = Inr end_offset"
    by (cases "offsetAt document after_end")
      (simp_all add: autocomplete_request_def Let_def)
  from assms 1 2 3 4 5 6 have
    req: "request =
       \<lparr>filename = fileName document, before = before_text, after = after_text,
        region_includes_beginning = (max 0 (offset - CHAR_LIMIT env) = 0),
        region_includes_end = (end_offset \<noteq> offset + CHAR_LIMIT env),
        max_num_results = getMaxResults env\<rparr>"
    by (simp add: autocomplete_request_def Let_def)
  show thesis
    by (rule that [OF 1 2 3 _ _ 6]) (simp_all add: req 4 5)
qed

subsection \<open>The replacement range and the request window\<close>

lemma makeCompletionItem_total:
  "length op \<le> character p \<Longrightarrow>
   \<exists>item. makeCompletionItem env document index p detailMessage op entry rs = Inr item"
  by (rule exI) (rule makeCompletionItem_returns)

text \<open>
  C9. An item's range starts at the cursor position moved left by the length of
  old_prefix and ends at the cursor position moved right by the length of the entry's
  old_suffix (makeCompletionItem returns only when the prefix fits on the line). So in
  the list made for a response the k-th item's range starts at the same position for
  every k and ends where the k-th entry's old_suffix says. In the request, the text
  before the cursor starts at the offset max(0, offset - CHAR_LIMIT), and
  region_includes_beginning is true exactly when that offset is 0.
\<close>

theorem range_and_window:
  "(makeCompletionItem env document index p detailMessage op entry rs = Inr item \<longrightarrow>
      length op \<le> character p
      \<and> item_range item =
          \<lparr>range_start = \<lparr>line = line p, character = character p - length op\<rparr>,
           range_end =
             \<lparr>line = line p, character = character p + length (old_suffix entry)\<rparr>\<rparr>)
   \<and> (completionList_of env document p response = Inr its \<and> k < length its \<longrightarrow>
        k < length (results response)
        \<and> length (old_prefix response) \<le> character p
        \<and> range_start (item_range (its ! k))
            = \<lparr>line = line p, character = character p - length (old_prefix response)\<rparr>
        \<and> range_end (item_range (its ! k))
            = \<lparr>line = line p,
               character = character p + length (old_suffix (results response ! k))\<rparr>)
   \<and> (autocomplete_request env document p = Inr request \<and> offsetAt document p = Inr offset
        \<longrightarrow>
        region_includes_beginning request = (max 0 (offset - CHAR_LIMIT env) = 0)
        \<and> (\<exists>before_start.
              positionAt document (max 0 (offset - CHAR_LIMIT env)) = Inr before_start
              \<and> getText document (new_Range before_start p) = Inr (before request)))"
proof (intro conjI impI)
  assume made: "makeCompletionItem env document index p detailMessage op entry rs = Inr item"
  from makeCompletionItem_fields(1) [OF made] show "length op \<le> character p" .
  from makeCompletionItem_fields(7) [OF made]
  show "item_range item =
          \<lparr>range_start = \<lparr>line = line p, character = character p - length op\<rparr>,
           range_end =
             \<lparr>line = line p, character = character p + length (old_suffix entry)\<rparr>\<rparr>" .
next
  assume "completionList_of env document p response = Inr its \<and> k < length its"
  then have kth: "k < length (results response)
     \<and> makeCompletionItem env document k p (detailMessage_of env response)
          (old_prefix response) (results response ! k) (results response) = Inr (its ! k)"
    using completionList_of_nth by blast
  then show "k < length (results response)"
    by simp
  from kth makeCompletionItem_fields(1)
  show "length (old_prefix response) \<le> character p"
    by blast
  from kth makeCompletionItem_fields(7)
  have "item_range (its ! k) =
          \<lparr>range_start =
             \<lparr>line = line p, character = character p - length (old_prefix response)\<rparr>,
           range_end =
             \<lparr>line = line p,
              character = character p + length (old_suffix (results response ! k))\<rparr>\<rparr>"
    by blast
  then show "range_start (item_range (its ! k))
            = \<lparr>line = line p, character = character p - length (old_prefix response)\<rparr>"
    and "range_end (item_range (its ! k))
            = \<lparr>line = line p,
               character = character p + length (old_suffix (results response ! k))\<rparr>"
    by simp_all
next
  assume a: "autocomplete_request env document p = Inr request
      \<and> offsetAt document p = Inr offset"
  then have req: "autocomplete_request env document p = Inr request"
    and off: "offsetAt document p = Inr offset"
    by simp_all
  from req obtain offset' before_start after_end end_offset where
    f: "offsetAt document p = Inr offset'"
      "positionAt document (max 0 (offset' - CHAR_LIMIT env)) = Inr before_start"
      "getText document (new_Range before_start p) = Inr (before request)"
      "region_includes_beginning request = (max 0 (offset' - CHAR_LIMIT env) = 0)"
    by (rule autocomplete_request_Inr)
  from f(1) off have same: "offset' = offset"
    by simp
  from f(4) same
  show "region_includes_beginning request = (max 0 (offset - CHAR_LIMIT env) = 0)"
    by simp
  from f(2,3) same
  show "\<exists>before_start.
              positionAt document (max 0 (offset - CHAR_LIMIT env)) = Inr before_start
              \<and> getText document (new_Range before_start p) = Inr (before request)"
    by auto
qed

theorem range_and_window_witness:
  "range_start (item_range (projr (completionList_of sample_env
      (one_line_document (js ''f.ts'') (js ''foo.b)'')) \<lparr>line = 0, character = 5\<rparr>
      \<lparr>old_prefix = js ''b'',
       results = [(sample_entry (js ''bar()''))\<lparr>old_suffix := js '')'', kind := Some 2\<rparr>,
                  sample_entry (js ''baz'')],
       user_message = None\<rparr>) ! 0))
     = \<lparr>line = 0, character = 4\<rparr>
   \<and> range_end (item_range (projr (completionList_of sample_env
      (one_line_document (js ''f.ts'') (js ''foo.b)'')) \<lparr>line = 0, character = 5\<rparr>
      \<lparr>old_prefix = js ''b'',
       results = [(sample_entry (js ''bar()''))\<lparr>old_suffix := js '')'', kind := Some 2\<rparr>,
                  sample_entry (js ''baz'')],
       user_message = None\<rparr>) ! 0))
     = \<lparr>line = 0, character = 6\<rparr>
   \<and> range_start (item_range (projr (completionList_of sample_env
      (one_line_document (js ''f.ts'') (js ''foo.b)'')) \<lparr>line = 0, character = 5\<rparr>
      \<lparr>old_prefix = js ''b'',
       results = [(sample_entry (js ''bar()''))\<lparr>old_suffix := js '')'', kind := Some 2\<rparr>,
                  sample_entry (js ''baz'')],
       user_message = None\<rparr>) ! 1))
     = \<lparr>line = 0, character = 4\<rparr>
   \<and> range_end (item_range (projr (completionList_of sample_env
      (one_line_document (js ''f.ts'') (js ''foo.b)'')) \<lparr>line = 0, character = 5\<rparr>
      \<lparr>old_prefix = js ''b'',
       results = [(sample_entry (js ''bar()''))\<lparr>old_suffix := js '')'', kind := Some 2\<rparr>,
                  sample_entry (js ''baz'')],
       user_message = None\<rparr>) ! 1))
     = \<lparr>line = 0, character = 5\<rparr>
   \<and> region_includes_beginning (projr (autocomplete_request sample_env
      (one_line_document (js ''f.ts'') (js ''foo.b)'')) \<lparr>line = 0, character = 5\<rparr>))
   \<and> before (projr (autocomplete_request sample_env
      (one_line_document (js ''f.ts'') (js ''foo.b)'')) \<lparr>line = 0, character = 5\<rparr>))
     = js ''foo.b''"
proof -
  let ?d = "one_line_document (js ''f.ts'') (js ''foo.b)'')"
  let ?p = "\<lparr>line = 0, character = 5\<rparr>"
  let ?r = "\<lparr>old_prefix = js ''b'',
       results = [(sample_entry (js ''bar()''))\<lparr>old_suffix := js '')'', kind := Some 2\<rparr>,
                  sample_entry (js ''baz'')],
       user_message = None\<rparr>"
  have few: "showFew ?r ?d ?p = Inr False"
    by (simp add: showFew_eq sample_entry_def truthy_kind_def)
  have m0: "\<exists>item. makeCompletionItem sample_env ?d 0 ?p (detailMessage_of sample_env ?r)
      (js ''b'') ((sample_entry (js ''bar()''))\<lparr>old_suffix := js '')'', kind := Some 2\<rparr>)
      (results ?r) = Inr item"
    by (rule makeCompletionItem_total) (simp add: js_def)
  have m1: "\<exists>item. makeCompletionItem sample_env ?d 1 ?p (detailMessage_of sample_env ?r)
      (js ''b'') (sample_entry (js ''baz'')) (results ?r) = Inr item"
    by (rule makeCompletionItem_total) (simp add: js_def)
  from m0 m1 few have "\<exists>its. completionList_of sample_env ?d ?p ?r = Inr its \<and> length its = 2"
    by (auto simp: completionList_of_def)
  then have list: "completionList_of sample_env ?d ?p ?r
        = Inr (projr (completionList_of sample_env ?d ?p ?r))"
    and len: "length (projr (completionList_of sample_env ?d ?p ?r)) = 2"
    by auto
  have off: "offsetAt ?d ?p = Inr 5"
    by (simp add: one_line_document_def js_def)
  have "\<exists>request. autocomplete_request sample_env ?d ?p = Inr request"
    by (simp add: autocomplete_request_def one_line_document_def Let_def)
  then have req: "autocomplete_request sample_env ?d ?p
        = Inr (projr (autocomplete_request sample_env ?d ?p))"
    by auto
  have b: "getText ?d (new_Range \<lparr>line = 0, character = 0\<rparr> ?p) = Inr (js ''foo.b'')"
    by (simp add: one_line_document_def new_Range_def isBefore_def js_def)
  have pos: "positionAt ?d 0 = Inr \<lparr>line = 0, character = 0\<rparr>"
    by (simp add: one_line_document_def)
  have lim: "max 0 (5 - CHAR_LIMIT sample_env) = 0"
    by (simp add: sample_env_def)
  let ?its = "projr (completionList_of sample_env ?d ?p ?r)"
  let ?req = "projr (autocomplete_request sample_env ?d ?p)"
  let ?any = "projr (makeCompletionItem sample_env ?d 0 ?p [] [] (sample_entry []) [])"
  have k0: "0 < length ?its" and k1: "1 < length ?its"
    using len by simp_all
  from range_and_window [of sample_env ?d 0 ?p "[]" "[]" "sample_entry []" "[]" ?any ?r
      ?its 0 ?req 5] list k0
  have r0: "range_start (item_range (?its ! 0))
        = \<lparr>line = line ?p, character = character ?p - length (old_prefix ?r)\<rparr>
      \<and> range_end (item_range (?its ! 0))
        = \<lparr>line = line ?p,
           character = character ?p + length (old_suffix (results ?r ! 0))\<rparr>"
    by blast
  from range_and_window [of sample_env ?d 0 ?p "[]" "[]" "sample_entry []" "[]" ?any ?r
      ?its 1 ?req 5] list k1
  have r1: "range_start (item_range (?its ! 1))
        = \<lparr>line = line ?p, character = character ?p - length (old_prefix ?r)\<rparr>
      \<and> range_end (item_range (?its ! 1))
        = \<lparr>line = line ?p,
           character = character ?p + length (old_suffix (results ?r ! 1))\<rparr>"
    by blast
  from range_and_window [of sample_env ?d 0 ?p "[]" "[]" "sample_entry []" "[]" ?any ?r
      ?its 0 ?req 5] req off
  have w: "region_includes_beginning ?req = (max 0 (5 - CHAR_LIMIT sample_env) = 0)
      \<and> (\<exists>before_start.
            positionAt ?d (max 0 (5 - CHAR_LIMIT sample_env)) = Inr before_start
            \<and> getText ?d (new_Range before_start ?p) = Inr (before ?req))"
    by blast
  from w lim have "region_includes_beginning ?req"
    by simp
  moreover from w lim pos b have "before ?req = js ''foo.b''"
    by auto
  moreover from r0 have "range_start (item_range (?its ! 0)) = \<lparr>line = 0, character = 4\<rparr>"
    and "range_end (item_range (?its ! 0)) = \<lparr>line = 0, character = 6\<rparr>"
    by (simp_all add: sample_entry_def js_def)
  moreover from r1 have "range_start (item_range (?its ! 1)) = \<lparr>line = 0, character = 4\<rparr>"
    and "range_end (item_range (?its ! 1)) = \<lparr>line = 0, character = 5\<rparr>"
    by (simp_all add: sample_entry_def js_def)
  ultimately show ?thesis
    by blast
qed

subsection \<open>provideCompletionItems\<close>

lemma provideCompletionItems_try_eq:
  "provideCompletionItems_try env document p =
     (case fst (completionIsAllowed env document p) of
        Inl e \<Rightarrow> Inl e
      | Inr allowed \<Rightarrow>
          if \<not> allowed then Inr None
          else
            (case autocomplete_request env document p of
               Inl e \<Rightarrow> Inl e
             | Inr request \<Rightarrow>
                 (case autocomplete env request of
                    Inl e \<Rightarrow> Inl e
                  | Inr None \<Rightarrow> Inr None
                  | Inr (Some response) \<Rightarrow>
                      (case completionList_of env document p response of
                         Inl e \<Rightarrow> Inl e
                       | Inr completionList \<Rightarrow>
                           Inr (Some \<lparr>items = completionList, isIncomplete = True\<rparr>)))))"
  by (simp add: provideCompletionItems_try_def and_then_def split: sum.splits option.splits)

lemma provideCompletionItems_try_Some:
  assumes "provideCompletionItems_try env document p = Inr (Some l)"
  shows "isIncomplete l = True
     \<and> (\<exists>request response.
           fst (completionIsAllowed env document p) = Inr True
           \<and> autocomplete_request env document p = Inr request
           \<and> autocomplete env request = Inr (Some response)
           \<and> completionList_of env document p response = Inr (items l))"
  using assms unfolding provideCompletionItems_try_eq
  by (auto split: sum.splits option.splits if_splits)

lemma provideCompletionItems_try_None:
  assumes "provideCompletionItems_try env document p = Inr None"
  shows "fst (completionIsAllowed env document p) = Inr False
     \<or> (\<exists>request.
           fst (completionIsAllowed env document p) = Inr True
           \<and> autocomplete_request env document p = Inr request
           \<and> autocomplete env request = Inr None)"
  using assms unfolding provideCompletionItems_try_eq
  by (auto split: sum.splits option.splits if_splits)

lemma provideCompletionItems_try_list:
  assumes "fst (completionIsAllowed env document p) = Inr True"
    and "autocomplete_request env document p = Inr request"
    and "autocomplete env request = Inr (Some response)"
  shows "provideCompletionItems_try env document p =
     (case completionList_of env document p response of
        Inl e \<Rightarrow> Inl e
      | Inr completionList \<Rightarrow> Inr (Some \<lparr>items = completionList, isIncomplete = True\<rparr>))"
  using assms by (simp add: provideCompletionItems_try_eq)

lemma provideCompletionItems_eq:
  "provideCompletionItems env document p token context_arg =
     (case provideCompletionItems_try env document p of
        Inl e \<Rightarrow> (Inr None, [Error_setting_up_request e])
      | Inr r \<Rightarrow> (Inr r, []))"
  by (simp add: provideCompletionItems_def)

text \<open>
  C10. When provideCompletionItems returns a list, the list is marked incomplete and
  holds the items made for a response that was received. Whenever completion is allowed,
  the request is built, a response is received and its items are made, the function
  returns them in a list marked incomplete and writes nothing to the console; for a
  response without entries that list is empty. When the function returns nothing, then
  completion was not allowed, or no response was received, or the body threw. An item's
  filterText is the entry's new_prefix as it is, also where the label carries the marker.
\<close>

theorem provideCompletionItems_list:
  "(fst (provideCompletionItems env document p token context_arg) = Inr (Some l) \<longrightarrow>
      isIncomplete l = True
      \<and> (\<exists>request response.
            fst (completionIsAllowed env document p) = Inr True
            \<and> autocomplete_request env document p = Inr request
            \<and> autocomplete env request = Inr (Some response)
            \<and> completionList_of env document p response = Inr (items l)))
   \<and> (fst (completionIsAllowed env document p) = Inr True
        \<and> autocomplete_request env document p = Inr request
        \<and> autocomplete env request = Inr (Some response)
        \<and> completionList_of env document p response = Inr its \<longrightarrow>
        provideCompletionItems env document p token context_arg
          = (Inr (Some \<lparr>items = its, isIncomplete = True\<rparr>), []))
   \<and> (results response = [] \<longrightarrow> completionList_of env document p response = Inr [])
   \<and> (fst (provideCompletionItems env document p token context_arg) = Inr None \<longrightarrow>
        fst (completionIsAllowed env document p) = Inr False
        \<or> (\<exists>request.
              fst (completionIsAllowed env document p) = Inr True
              \<and> autocomplete_request env document p = Inr request
              \<and> autocomplete env request = Inr None)
        \<or> (\<exists>e. provideCompletionItems_try env document p = Inl e))
   \<and> (makeCompletionItem env document index p detailMessage op entry rs = Inr item \<longrightarrow>
        filterText item = new_prefix entry
        \<and> label item =
            (if isCapabilityEnabled env ON_BOARDING_CAPABILITY
             then sparkles @ new_prefix entry else new_prefix entry))
   \<and> (completionList_of env document p response = Inr its \<and> k < length its \<longrightarrow>
        filterText (its ! k) = new_prefix (results response ! k))"
proof (intro conjI impI)
  assume "fst (provideCompletionItems env document p token context_arg) = Inr (Some l)"
  then have some: "provideCompletionItems_try env document p = Inr (Some l)"
    by (simp add: provideCompletionItems_eq split: sum.splits)
  from provideCompletionItems_try_Some [OF some]
  show "isIncomplete l = True"
    and "\<exists>request response.
            fst (completionIsAllowed env document p) = Inr True
            \<and> autocomplete_request env document p = Inr request
            \<and> autocomplete env request = Inr (Some response)
            \<and> completionList_of env document p response = Inr (items l)"
    by simp_all
next
  assume "fst (completionIsAllowed env document p) = Inr True
        \<and> autocomplete_request env document p = Inr request
        \<and> autocomplete env request = Inr (Some response)
        \<and> completionList_of env document p response = Inr its"
  then show "provideCompletionItems env document p token context_arg
          = (Inr (Some \<lparr>items = its, isIncomplete = True\<rparr>), [])"
    by (simp add: provideCompletionItems_eq provideCompletionItems_try_list)
next
  assume "results response = []"
  then show "completionList_of env document p response = Inr []"
    by (simp add: completionList_of_def)
next
  assume none: "fst (provideCompletionItems env document p token context_arg) = Inr None"
  show "fst (completionIsAllowed env document p) = Inr False
        \<or> (\<exists>request.
              fst (completionIsAllowed env document p) = Inr True
              \<and> autocomplete_request env document p = Inr request
              \<and> autocomplete env request = Inr None)
        \<or> (\<exists>e. provideCompletionItems_try env document p = Inl e)"
  proof (cases "provideCompletionItems_try env document p")
    case (Inl e)
    then show ?thesis by blast
  next
    case (Inr r)
    with none have "provideCompletionItems_try env document p = Inr None"
      by (simp add: provideCompletionItems_eq)
    from provideCompletionItems_try_None [OF this] show ?thesis
      by blast
  qed
next
  assume made: "makeCompletionItem env document index p detailMessage op entry rs = Inr item"
  from makeCompletionItem_fields(5) [OF made] show "filterText item = new_prefix entry" .
  from makeCompletionItem_fields(2) [OF made]
  show "label item =
            (if isCapabilityEnabled env ON_BOARDING_CAPABILITY
             then sparkles @ new_prefix entry else new_prefix entry)"
    by simp
next
  assume "completionList_of env document p response = Inr its \<and> k < length its"
  then have "makeCompletionItem env document k p (detailMessage_of env response)
          (old_prefix response) (results response ! k) (results response) = Inr (its ! k)"
    using completionList_of_nth by blast
  then show "filterText (its ! k) = new_prefix (results response ! k)"
    by (rule makeCompletionItem_fields(5))
qed

theorem provideCompletionItems_list_witness:
  "provideCompletionItems
      (sample_env\<lparr>autocomplete :=
         (\<lambda>request. Inr (Some \<lparr>old_prefix = [], results = [], user_message = None\<rparr>))\<rparr>)
      (one_line_document (js ''f.ts'') (js ''foo.'')) \<lparr>line = 0, character = 4\<rparr> () ()
     = (Inr (Some \<lparr>items = [], isIncomplete = True\<rparr>), [])
   \<and> filterText
        (projr (makeCompletionItem
           (sample_env\<lparr>isCapabilityEnabled := (\<lambda>c. c = ON_BOARDING_CAPABILITY)\<rparr>)
           (one_line_document (js ''f.ts'') (js ''foo.'')) 0 \<lparr>line = 0, character = 4\<rparr>
           (js ''TabNine'') [] (sample_entry (js ''a$b'')) []))
     = js ''a$b''
   \<and> label
        (projr (makeCompletionItem
           (sample_env\<lparr>isCapabilityEnabled := (\<lambda>c. c = ON_BOARDING_CAPABILITY)\<rparr>)
           (one_line_document (js ''f.ts'') (js ''foo.'')) 0 \<lparr>line = 0, character = 4\<rparr>
           (js ''TabNine'') [] (sample_entry (js ''a$b'')) []))
     = [0x2728, 0x20] @ js ''a$b''"
proof -
  let ?d = "one_line_document (js ''f.ts'') (js ''foo.'')"
  let ?p = "\<lparr>line = 0, character = 4\<rparr>"
  let ?resp = "\<lparr>old_prefix = [], results = [], user_message = None\<rparr>"
  let ?envA = "sample_env\<lparr>autocomplete := (\<lambda>request. Inr (Some ?resp))\<rparr>"
  let ?envB = "sample_env\<lparr>isCapabilityEnabled := (\<lambda>c. c = ON_BOARDING_CAPABILITY)\<rparr>"
  let ?req = "projr (autocomplete_request ?envA ?d ?p)"
  let ?mk = "makeCompletionItem ?envB ?d 0 ?p (js ''TabNine'') [] (sample_entry (js ''a$b'')) []"
  have allowed: "fst (completionIsAllowed ?envA ?d ?p) = Inr True"
    by (simp add: completionIsAllowed_def disable_line_regex_def disable_file_regex_def
        sample_env_def)
  have req: "autocomplete_request ?envA ?d ?p = Inr ?req"
    using one_line_request [of ?envA "js ''f.ts''" "js ''foo.''" ?p] by auto
  have resp: "autocomplete ?envA ?req = Inr (Some ?resp)"
    by simp
  have empty: "completionList_of ?envA ?d ?p ?resp = Inr []"
    by (simp add: completionList_of_def)
  have made: "?mk = Inr (projr ?mk)"
    by (rule makeCompletionItem_returns) simp
  have on: "isCapabilityEnabled ?envB ON_BOARDING_CAPABILITY"
    by simp
  from provideCompletionItems_list [of ?envA ?d ?p "()" "()" "\<lparr>items = [], isIncomplete = True\<rparr>"
      ?req ?resp "[]" 0 "[]" "[]" "sample_entry []" "[]"
      "projr (makeCompletionItem ?envA ?d 0 ?p [] [] (sample_entry []) [])" 0]
    allowed req resp empty
  have "provideCompletionItems ?envA ?d ?p () ()
      = (Inr (Some \<lparr>items = [], isIncomplete = True\<rparr>), [])"
    by blast
  moreover
  from provideCompletionItems_list [of ?envB ?d ?p "()" "()" "\<lparr>items = [], isIncomplete = True\<rparr>"
      ?req ?resp "[]" 0 "js ''TabNine''" "[]" "sample_entry (js ''a$b'')" "[]" "projr ?mk" 0]
    made on
  have "filterText (projr ?mk) = new_prefix (sample_entry (js ''a$b''))
      \<and> label (projr ?mk) = sparkles @ new_prefix (sample_entry (js ''a$b''))"
    by simp
  ultimately show ?thesis
    by (simp add: sample_entry_def sparkles_def)
qed

text \<open>
  C1. provideCompletionItems never ends in an exception: its outcome is always a value.
  Whatever the body throws is written to the console, once, and the function returns
  nothing; this holds for an exception of the suppression check, of the computation of
  the window, of the service call and of the making of the items. The outcome depends on
  the arguments and the surroundings only, so one failing call changes no other call.
\<close>

theorem provideCompletionItems_catches:
  "(\<exists>r log. provideCompletionItems env document p token context_arg = (Inr r, log))
   \<and> (provideCompletionItems_try env document p = Inl e \<longrightarrow>
        provideCompletionItems env document p token context_arg
          = (Inr None, [Error_setting_up_request e]))
   \<and> (fst (completionIsAllowed env document p) = Inl e \<longrightarrow>
        provideCompletionItems env document p token context_arg
          = (Inr None, [Error_setting_up_request e]))
   \<and> (fst (completionIsAllowed env document p) = Inr True
        \<and> autocomplete_request env document p = Inl e \<longrightarrow>
        provideCompletionItems env document p token context_arg
          = (Inr None, [Error_setting_up_request e]))
   \<and> (fst (completionIsAllowed env document p) = Inr True
        \<and> autocomplete_request env document p = Inr request
        \<and> autocomplete env request = Inl e \<longrightarrow>
        provideCompletionItems env document p token context_arg
          = (Inr None, [Error_setting_up_request e]))
   \<and> (fst (completionIsAllowed env document p) = Inr True
        \<and> autocomplete_request env document p = Inr request
        \<and> autocomplete env request = Inr (Some response)
        \<and> completionList_of env document p response = Inl e \<longrightarrow>
        provideCompletionItems env document p token context_arg
          = (Inr None, [Error_setting_up_request e]))"
proof (intro conjI impI)
  show "\<exists>r log. provideCompletionItems env document p token context_arg = (Inr r, log)"
    by (cases "provideCompletionItems_try env document p")
      (simp_all add: provideCompletionItems_eq)
next
  assume "provideCompletionItems_try env document p = Inl e"
  then show "provideCompletionItems env document p token context_arg
          = (Inr None, [Error_setting_up_request e])"
    by (simp add: provideCompletionItems_eq)
next
  assume "fst (completionIsAllowed env document p) = Inl e"
  then show "provideCompletionItems env document p token context_arg
          = (Inr None, [Error_setting_up_request e])"
    by (simp add: provideCompletionItems_eq provideCompletionItems_try_eq)
next
  assume "fst (completionIsAllowed env document p) = Inr True
        \<and> autocomplete_request env document p = Inl e"
  then show "provideCompletionItems env document p token context_arg
          = (Inr None, [Error_setting_up_request e])"
    by (simp add: provideCompletionItems_eq provideCompletionItems_try_eq)
next
  assume "fst (completionIsAllowed env document p) = Inr True
        \<and> autocomplete_request env document p = Inr request
        \<and> autocomplete env request = Inl e"
  then show "provideCompletionItems env document p token context_arg
          = (Inr None, [Error_setting_up_request e])"
    by (simp add: provideCompletionItems_eq provideCompletionItems_try_eq)
next
  assume "fst (completionIsAllowed env document p) = Inr True
        \<and> autocomplete_request env document p = Inr request
        \<and> autocomplete env request = Inr (Some response)
        \<and> completionList_of env document p response = Inl e"
  then show "provideCompletionItems env document p token context_arg
          = (Inr None, [Error_setting_up_request e])"
    by (simp add: provideCompletionItems_eq provideCompletionItems_try_eq)
qed

theorem provideCompletionItems_catches_witness:
  "provideCompletionItems (sample_env\<lparr>configuration_get := sample_config [js ''('']\<rparr>)
      (one_line_document (js ''f.ts'') (js ''foo.'')) \<lparr>line = 0, character = 4\<rparr> () ()
     = (Inr None, [Error_setting_up_request (Thrown (js ''SyntaxError''))])
   \<and> provideCompletionItems sample_env
        ((one_line_document (js ''f.ts'') (js ''foo.''))
           \<lparr>offsetAt := (\<lambda>p. Inl (Thrown (js ''closed'')))\<rparr>)
        \<lparr>line = 0, character = 4\<rparr> () ()
     = (Inr None, [Error_setting_up_request (Thrown (js ''closed''))])
   \<and> provideCompletionItems
        (sample_env\<lparr>autocomplete := (\<lambda>request. Inl (Thrown (js ''rejected'')))\<rparr>)
        (one_line_document (js ''f.ts'') (js ''foo.'')) \<lparr>line = 0, character = 4\<rparr> () ()
     = (Inr None, [Error_setting_up_request (Thrown (js ''rejected''))])
   \<and> provideCompletionItems
        (sample_env\<lparr>autocomplete :=
           (\<lambda>request. Inr (Some \<lparr>old_prefix = js ''fooled'',
                                 results = [(sample_entry (js ''bar''))\<lparr>kind := Some 1\<rparr>],
                                 user_message = None\<rparr>))\<rparr>)
        (one_line_document (js ''f.ts'') (js ''foo.'')) \<lparr>line = 0, character = 4\<rparr> () ()
     = (Inr None, [Error_setting_up_request IllegalArgument])"
proof -
  let ?d = "one_line_document (js ''f.ts'') (js ''foo.'')"
  let ?p = "\<lparr>line = 0, character = 4\<rparr>"
  let ?env1 = "sample_env\<lparr>configuration_get := sample_config [js ''('']\<rparr>"
  let ?d2 = "?d\<lparr>offsetAt := (\<lambda>p. Inl (Thrown (js ''closed'')))\<rparr>"
  let ?env3 = "sample_env\<lparr>autocomplete := (\<lambda>request. Inl (Thrown (js ''rejected'')))\<rparr>"
  let ?resp = "\<lparr>old_prefix = js ''fooled'',
                results = [(sample_entry (js ''bar''))\<lparr>kind := Some 1\<rparr>],
                user_message = None\<rparr>"
  let ?env4 = "sample_env\<lparr>autocomplete := (\<lambda>request. Inr (Some ?resp))\<rparr>"
  have h1: "fst (completionIsAllowed ?env1 ?d ?p) = Inl (Thrown (js ''SyntaxError''))"
    by (simp add: completionIsAllowed_def disable_line_regex_def sample_config_def
        sample_env_def one_line_document_def literal_test_def)
  have h2: "fst (completionIsAllowed sample_env ?d2 ?p) = Inr True
      \<and> autocomplete_request sample_env ?d2 ?p = Inl (Thrown (js ''closed''))"
    by (simp add: completionIsAllowed_def sample_env_no_regex autocomplete_request_def)
  have a3: "fst (completionIsAllowed ?env3 ?d ?p) = Inr True"
    by (simp add: completionIsAllowed_def disable_line_regex_def disable_file_regex_def
        sample_env_def)
  have r3: "autocomplete_request ?env3 ?d ?p = Inr (projr (autocomplete_request ?env3 ?d ?p))"
    using one_line_request [of ?env3 "js ''f.ts''" "js ''foo.''" ?p] by auto
  have t3: "autocomplete ?env3 (projr (autocomplete_request ?env3 ?d ?p))
      = Inl (Thrown (js ''rejected''))"
    by simp
  have a4: "fst (completionIsAllowed ?env4 ?d ?p) = Inr True"
    by (simp add: completionIsAllowed_def disable_line_regex_def disable_file_regex_def
        sample_env_def)
  have r4: "autocomplete_request ?env4 ?d ?p = Inr (projr (autocomplete_request ?env4 ?d ?p))"
    using one_line_request [of ?env4 "js ''f.ts''" "js ''foo.''" ?p] by auto
  have s4: "autocomplete ?env4 (projr (autocomplete_request ?env4 ?d ?p)) = Inr (Some ?resp)"
    by simp
  have few: "showFew ?resp ?d ?p = Inr False"
    by (simp add: showFew_eq sample_entry_def truthy_kind_def)
  have t4: "completionList_of ?env4 ?d ?p ?resp = Inl IllegalArgument"
    using few by (simp add: completionList_of_def makeCompletionItem_fails length_js)
  from provideCompletionItems_catches [of ?env1 ?d ?p "()" "()" "Thrown (js ''SyntaxError'')"
      "projr (autocomplete_request ?env1 ?d ?p)" ?resp] h1
  have "provideCompletionItems ?env1 ?d ?p () ()
      = (Inr None, [Error_setting_up_request (Thrown (js ''SyntaxError''))])"
    by blast
  moreover
  from provideCompletionItems_catches [of sample_env ?d2 ?p "()" "()" "Thrown (js ''closed'')"
      "projr (autocomplete_request sample_env ?d2 ?p)" ?resp] h2
  have "provideCompletionItems sample_env ?d2 ?p () ()
      = (Inr None, [Error_setting_up_request (Thrown (js ''closed''))])"
    by blast
  moreover
  from provideCompletionItems_catches [of ?env3 ?d ?p "()" "()" "Thrown (js ''rejected'')"
      "projr (autocomplete_request ?env3 ?d ?p)" ?resp] a3 r3 t3
  have "provideCompletionItems ?env3 ?d ?p () ()
      = (Inr None, [Error_setting_up_request (Thrown (js ''rejected''))])"
    by blast
  moreover
  from provideCompletionItems_catches [of ?env4 ?d ?p "()" "()" IllegalArgument
      "projr (autocomplete_request ?env4 ?d ?p)" ?resp] a4 r4 s4 t4
  have "provideCompletionItems ?env4 ?d ?p () ()
      = (Inr None, [Error_setting_up_request IllegalArgument])"
    by blast
  ultimately show ?thesis
    by blast
qed

subsection \<open>completionIsAllowed\<close>

lemma line_range_eq:
  "line_range p =
     \<lparr>range_start = \<lparr>line = line p, character = 0\<rparr>,
      range_end = \<lparr>line = line p, character = 500\<rparr>\<rparr>"
  by (simp add: line_range_def new_Range_def isBefore_def Position_with_character_def)

lemma disable_file_loop_result:
  "fst (disable_file_loop env document rs) = Inr b \<Longrightarrow>
   b = (\<exists>r \<in> set rs. RegExp_test env r (fileName document) = Inr True)"
proof (induction rs)
  case Nil
  then show ?case by simp
next
  case (Cons r rs)
  show ?case
  proof (cases "RegExp_test env r (fileName document)")
    case (Inl e)
    with Cons.prems show ?thesis by simp
  next
    case (Inr hit)
    show ?thesis
    proof (cases hit)
      case True
      with Inr Cons.prems show ?thesis by auto
    next
      case False
      with Inr Cons.prems have "fst (disable_file_loop env document rs) = Inr b"
        by (simp split: prod.splits)
      from Cons.IH [OF this] Inr False show ?thesis
        by simp
    qed
  qed
qed

lemma disable_file_loop_total:
  "\<forall>r \<in> set rs. \<exists>b. RegExp_test env r (fileName document) = Inr b \<Longrightarrow>
   \<exists>b. fst (disable_file_loop env document rs) = Inr b"
proof (induction rs)
  case Nil
  show ?case by auto
next
  case (Cons r rs)
  then obtain hit where hit: "RegExp_test env r (fileName document) = Inr hit"
    by auto
  from Cons have "\<exists>b. fst (disable_file_loop env document rs) = Inr b"
    by simp
  with hit show ?case
    by (cases hit) (auto split: prod.splits)
qed

lemma disable_file_loop_trace:
  "filter is_GetText (snd (disable_file_loop env document rs)) = []"
proof (induction rs)
  case Nil
  then show ?case by simp
next
  case (Cons r rs)
  then show ?case
    by (cases "RegExp_test env r (fileName document)")
      (auto split: prod.splits bool.splits)
qed

lemma disable_line_loop_cached_result:
  "fst (disable_line_loop env document p (Some l) rs) = Inr b \<Longrightarrow>
   b = (\<exists>r \<in> set rs. RegExp_test env r l = Inr True)"
proof (induction rs)
  case Nil
  then show ?case by simp
next
  case (Cons r rs)
  show ?case
  proof (cases "RegExp_test env r l")
    case (Inl e)
    with Cons.prems show ?thesis by simp
  next
    case (Inr hit)
    show ?thesis
    proof (cases hit)
      case True
      with Inr Cons.prems show ?thesis by auto
    next
      case False
      with Inr Cons.prems have "fst (disable_line_loop env document p (Some l) rs) = Inr b"
        by (simp split: prod.splits)
      from Cons.IH [OF this] Inr False show ?thesis
        by simp
    qed
  qed
qed

lemma disable_line_loop_cached_total:
  "\<forall>r \<in> set rs. \<exists>b. RegExp_test env r l = Inr b \<Longrightarrow>
   \<exists>b. fst (disable_line_loop env document p (Some l) rs) = Inr b"
proof (induction rs)
  case Nil
  show ?case by auto
next
  case (Cons r rs)
  then obtain hit where hit: "RegExp_test env r l = Inr hit"
    by auto
  from Cons have "\<exists>b. fst (disable_line_loop env document p (Some l) rs) = Inr b"
    by simp
  with hit show ?case
    by (cases hit) (auto split: prod.splits)
qed

lemma disable_line_loop_cached_trace:
  "filter is_GetText (snd (disable_line_loop env document p (Some l) rs)) = []"
proof (induction rs)
  case Nil
  then show ?case by simp
next
  case (Cons r rs)
  then show ?case
    by (cases "RegExp_test env r l") (auto split: prod.splits bool.splits)
qed

lemma disable_line_loop_cached_hit:
  "\<forall>q \<in> set pre. RegExp_test env q l = Inr False \<Longrightarrow>
   RegExp_test env r l = Inr True \<Longrightarrow>
   disable_line_loop env document p (Some l) (pre @ r # post)
     = (Inr True, map (\<lambda>q. RegExpTest q l) (pre @ [r]))"
  by (induction pre) simp_all

lemma disable_line_loop_start:
  "getText document (line_range p) = Inr l \<Longrightarrow>
   disable_line_loop env document p None (r # rs)
     = (fst (disable_line_loop env document p (Some l) (r # rs)),
        GetText (line_range p) # snd (disable_line_loop env document p (Some l) (r # rs)))"
  by (cases "RegExp_test env r l") (auto split: prod.splits bool.splits)

lemma disable_line_loop_start_fails:
  "getText document (line_range p) = Inl e \<Longrightarrow>
   disable_line_loop env document p None (r # rs) = (Inl e, [GetText (line_range p)])"
  by simp

lemma disable_line_loop_result:
  assumes "fst (disable_line_loop env document p None rs) = Inr b"
  shows "b = (\<exists>r \<in> set rs. \<exists>l. getText document (line_range p) = Inr l
                \<and> RegExp_test env r l = Inr True)"
proof (cases rs)
  case Nil
  with assms show ?thesis by simp
next
  case (Cons r rs')
  show ?thesis
  proof (cases "getText document (line_range p)")
    case (Inl e)
    with assms Cons show ?thesis
      by (simp add: disable_line_loop_start_fails)
  next
    case (Inr l)
    with assms Cons have "fst (disable_line_loop env document p (Some l) rs) = Inr b"
      by (simp add: disable_line_loop_start del: disable_line_loop.simps)
    from disable_line_loop_cached_result [OF this] Inr show ?thesis
      by simp
  qed
qed

lemma disable_line_loop_trace:
  "length (filter is_GetText (snd (disable_line_loop env document p None rs))) \<le> 1"
proof (cases rs)
  case Nil
  then show ?thesis by simp
next
  case (Cons r rs')
  show ?thesis
  proof (cases "getText document (line_range p)")
    case (Inl e)
    with Cons show ?thesis
      by (simp add: disable_line_loop_start_fails)
  next
    case (Inr l)
    with Cons show ?thesis
      by (simp add: disable_line_loop_start disable_line_loop_cached_trace
          del: disable_line_loop.simps)
  qed
qed

lemma disable_line_loop_total:
  assumes "rs = [] \<or> (\<exists>l. getText document (line_range p) = Inr l
              \<and> (\<forall>r \<in> set rs. \<exists>b. RegExp_test env r l = Inr b))"
  shows "\<exists>b. fst (disable_line_loop env document p None rs) = Inr b"
proof (cases rs)
  case Nil
  then show ?thesis by auto
next
  case (Cons r rs')
  with assms obtain l where l: "getText document (line_range p) = Inr l"
    and ok: "\<forall>r \<in> set rs. \<exists>b. RegExp_test env r l = Inr b"
    by auto
  from disable_line_loop_cached_total [OF ok]
  have "\<exists>b. fst (disable_line_loop env document p (Some l) rs) = Inr b" .
  with l Cons show ?thesis
    by (simp add: disable_line_loop_start del: disable_line_loop.simps)
qed

lemma completionIsAllowed_eq:
  "completionIsAllowed env document p =
     (case fst (disable_line_loop env document p None (disable_line_regex env)) of
        Inl e \<Rightarrow> (Inl e, snd (disable_line_loop env document p None (disable_line_regex env)))
      | Inr True \<Rightarrow>
          (Inr False, snd (disable_line_loop env document p None (disable_line_regex env)))
      | Inr False \<Rightarrow>
          (case fst (disable_file_loop env document (disable_file_regex env)) of
             Inl e \<Rightarrow> Inl e
           | Inr b \<Rightarrow> Inr (\<not> b),
           snd (disable_line_loop env document p None (disable_line_regex env))
             @ snd (disable_file_loop env document (disable_file_regex env))))"
proof -
  obtain lr lt where L:
    "disable_line_loop env document p None (disable_line_regex env) = (lr, lt)"
    by (cases "disable_line_loop env document p None (disable_line_regex env)")
  obtain fr ft where F:
    "disable_file_loop env document (disable_file_regex env) = (fr, ft)"
    by (cases "disable_file_loop env document (disable_file_regex env)")
  show ?thesis
    by (cases lr; cases fr)
      (simp_all add: completionIsAllowed_def L F split: bool.splits)
qed

lemma completionIsAllowed_result:
  assumes "fst (completionIsAllowed env document p) = Inr b"
  shows "(b = False) =
     ((\<exists>r \<in> set (disable_line_regex env). \<exists>l. getText document (line_range p) = Inr l
           \<and> RegExp_test env r l = Inr True)
      \<or> (\<exists>r \<in> set (disable_file_regex env).
            RegExp_test env r (fileName document) = Inr True))"
proof (cases "fst (disable_line_loop env document p None (disable_line_regex env))")
  case (Inl e)
  with assms show ?thesis
    by (simp add: completionIsAllowed_eq)
next
  case (Inr hit)
  note line = disable_line_loop_result [OF Inr]
  show ?thesis
  proof (cases hit)
    case True
    with Inr assms have "b = False"
      by (simp add: completionIsAllowed_eq)
    with line True show ?thesis
      by blast
  next
    case False
    with Inr assms obtain fhit where
      f: "fst (disable_file_loop env document (disable_file_regex env)) = Inr fhit"
      and b: "b = (\<not> fhit)"
      by (cases "fst (disable_file_loop env document (disable_file_regex env))")
        (simp_all add: completionIsAllowed_eq)
    from disable_file_loop_result [OF f] line False b show ?thesis
      by blast
  qed
qed

lemma completionIsAllowed_total:
  assumes "disable_line_regex env = []
      \<or> (\<exists>l. getText document (line_range p) = Inr l
            \<and> (\<forall>r \<in> set (disable_line_regex env). \<exists>b. RegExp_test env r l = Inr b))"
    and "\<forall>r \<in> set (disable_file_regex env).
            \<exists>b. RegExp_test env r (fileName document) = Inr b"
  shows "\<exists>b. fst (completionIsAllowed env document p) = Inr b"
proof -
  from disable_line_loop_total [OF assms(1)] obtain hit where
    l: "fst (disable_line_loop env document p None (disable_line_regex env)) = Inr hit"
    by blast
  from disable_file_loop_total [OF assms(2)] obtain fhit where
    f: "fst (disable_file_loop env document (disable_file_regex env)) = Inr fhit"
    by blast
  from l f show ?thesis
    by (cases hit) (auto simp: completionIsAllowed_eq)
qed

lemma completionIsAllowed_short_circuit:
  assumes "disable_line_regex env = pre @ r # post"
    and "getText document (line_range p) = Inr l"
    and "\<forall>q \<in> set pre. RegExp_test env q l = Inr False"
    and "RegExp_test env r l = Inr True"
  shows "completionIsAllowed env document p
     = (Inr False, GetText (line_range p) # map (\<lambda>q. RegExpTest q l) (pre @ [r]))"
proof -
  obtain q qs where split: "pre @ r # post = q # qs"
    by (cases "pre @ r # post") simp_all
  have "disable_line_loop env document p None (q # qs)
      = (fst (disable_line_loop env document p (Some l) (q # qs)),
         GetText (line_range p) # snd (disable_line_loop env document p (Some l) (q # qs)))"
    by (rule disable_line_loop_start [OF assms(2)])
  with split have "disable_line_loop env document p None (pre @ r # post)
      = (fst (disable_line_loop env document p (Some l) (pre @ r # post)),
         GetText (line_range p)
           # snd (disable_line_loop env document p (Some l) (pre @ r # post)))"
    by simp
  also have "\<dots> = (Inr True, GetText (line_range p) # map (\<lambda>q. RegExpTest q l) (pre @ [r]))"
    by (simp only: disable_line_loop_cached_hit [OF assms(3,4)] fst_conv snd_conv)
  finally show ?thesis
    by (simp add: completionIsAllowed_eq assms(1))
qed

lemma completionIsAllowed_reads_line_once:
  "length (filter is_GetText (snd (completionIsAllowed env document p))) \<le> 1"
proof -
  obtain lr lt where L:
    "disable_line_loop env document p None (disable_line_regex env) = (lr, lt)"
    by (cases "disable_line_loop env document p None (disable_line_regex env)")
  from disable_line_loop_trace [of env document p "disable_line_regex env"] L
  have "length (filter is_GetText lt) \<le> 1"
    by simp
  with L disable_file_loop_trace [of env document "disable_file_regex env"] show ?thesis
    by (cases lr) (simp_all add: completionIsAllowed_eq split: bool.splits)
qed

lemma completionIsAllowed_no_line_regex:
  assumes "disable_line_regex env = []"
  shows "filter is_GetText (snd (completionIsAllowed env document p)) = []"
  using disable_file_loop_trace [of env document "disable_file_regex env"]
  by (simp add: completionIsAllowed_eq assms)

lemma disable_line_loop_cached_throw:
  "\<forall>q \<in> set pre. RegExp_test env q l = Inr False \<Longrightarrow>
   RegExp_test env r l = Inl e \<Longrightarrow>
   disable_line_loop env document p (Some l) (pre @ r # post)
     = (Inl e, map (\<lambda>q. RegExpTest q l) (pre @ [r]))"
  by (induction pre) simp_all

lemma disable_line_loop_cached_no_hit:
  "\<forall>q \<in> set rs. RegExp_test env q l = Inr False \<Longrightarrow>
   disable_line_loop env document p (Some l) rs = (Inr False, map (\<lambda>q. RegExpTest q l) rs)"
  by (induction rs) simp_all

lemma disable_file_loop_hit:
  "\<forall>q \<in> set pre. RegExp_test env q (fileName document) = Inr False \<Longrightarrow>
   RegExp_test env r (fileName document) = Inr True \<Longrightarrow>
   disable_file_loop env document (pre @ r # post)
     = (Inr True, map (\<lambda>q. RegExpTest q (fileName document)) (pre @ [r]))"
  by (induction pre) simp_all

lemma disable_file_loop_no_hit:
  "\<forall>q \<in> set rs. RegExp_test env q (fileName document) = Inr False \<Longrightarrow>
   disable_file_loop env document rs
     = (Inr False, map (\<lambda>q. RegExpTest q (fileName document)) rs)"
  by (induction rs) simp_all

lemma disable_line_loop_started:
  assumes "getText document (line_range p) = Inr l" and "rs \<noteq> []"
  shows "disable_line_loop env document p None rs
     = (fst (disable_line_loop env document p (Some l) rs),
        GetText (line_range p) # snd (disable_line_loop env document p (Some l) rs))"
proof -
  from assms(2) obtain q qs where "rs = q # qs"
    by (cases rs) simp_all
  with disable_line_loop_start [OF assms(1), of env q qs] show ?thesis
    by simp
qed

lemma disable_line_loop_no_hit:
  assumes "rs = [] \<or> getText document (line_range p) = Inr l"
    and "\<forall>q \<in> set rs. RegExp_test env q l = Inr False"
  shows "disable_line_loop env document p None rs
     = (Inr False,
        if rs = [] then [] else GetText (line_range p) # map (\<lambda>q. RegExpTest q l) rs)"
proof (cases "rs = []")
  case True
  then show ?thesis by simp
next
  case False
  with assms(1) have "getText document (line_range p) = Inr l"
    by simp
  from disable_line_loop_started [OF this False, of env] False
  show ?thesis
    by (simp only: disable_line_loop_cached_no_hit [OF assms(2)] fst_conv snd_conv if_False)
qed

lemma completionIsAllowed_throws:
  assumes "disable_line_regex env = pre @ r # post"
    and "getText document (line_range p) = Inr l"
    and "\<forall>q \<in> set pre. RegExp_test env q l = Inr False"
    and "RegExp_test env r l = Inl e"
  shows "completionIsAllowed env document p
     = (Inl e, GetText (line_range p) # map (\<lambda>q. RegExpTest q l) (pre @ [r]))"
proof -
  have "pre @ r # post \<noteq> []"
    by simp
  from disable_line_loop_started [OF assms(2) this, of env]
  have "disable_line_loop env document p None (pre @ r # post)
      = (Inl e, GetText (line_range p) # map (\<lambda>q. RegExpTest q l) (pre @ [r]))"
    by (simp only: disable_line_loop_cached_throw [OF assms(3,4)] fst_conv snd_conv)
  then show ?thesis
    by (simp add: completionIsAllowed_eq assms(1))
qed

lemma completionIsAllowed_file_hit:
  assumes "disable_line_regex env = [] \<or> getText document (line_range p) = Inr l"
    and "\<forall>q \<in> set (disable_line_regex env). RegExp_test env q l = Inr False"
    and "disable_file_regex env = pre @ r # post"
    and "\<forall>q \<in> set pre. RegExp_test env q (fileName document) = Inr False"
    and "RegExp_test env r (fileName document) = Inr True"
  shows "completionIsAllowed env document p
     = (Inr False,
        (if disable_line_regex env = [] then []
         else GetText (line_range p) # map (\<lambda>q. RegExpTest q l) (disable_line_regex env))
        @ map (\<lambda>q. RegExpTest q (fileName document)) (pre @ [r]))"
  by (simp add: completionIsAllowed_eq disable_line_loop_no_hit [OF assms(1,2)]
      assms(3) disable_file_loop_hit [OF assms(4,5)] del: disable_line_loop.simps
      disable_file_loop.simps split del: if_split)

lemma completionIsAllowed_no_hit:
  assumes "disable_line_regex env = [] \<or> getText document (line_range p) = Inr l"
    and "\<forall>q \<in> set (disable_line_regex env). RegExp_test env q l = Inr False"
    and "\<forall>q \<in> set (disable_file_regex env). RegExp_test env q (fileName document) = Inr False"
  shows "completionIsAllowed env document p
     = (Inr True,
        (if disable_line_regex env = [] then []
         else GetText (line_range p) # map (\<lambda>q. RegExpTest q l) (disable_line_regex env))
        @ map (\<lambda>q. RegExpTest q (fileName document)) (disable_file_regex env))"
  by (simp add: completionIsAllowed_eq disable_line_loop_no_hit [OF assms(1,2)]
      disable_file_loop_no_hit [OF assms(3)] del: disable_line_loop.simps
      disable_file_loop.simps split del: if_split)


text \<open>
  C2, as the specification states it, fails where a line pattern that does not compile
  comes before one that matches: \<open>new RegExp(r)\<close> throws, so the function does not
  return false although a configured line pattern matches the line. With the patterns
  \<open>(\<close> and \<open>TODO\<close> on the line \<open>a TODO\<close> it throws after one read of the line
  and one evaluation.
\<close>

theorem completionIsAllowed_invalid_pattern:
  "disable_line_regex (sample_env\<lparr>configuration_get := sample_config [js ''('', js ''TODO'']\<rparr>)
     = [js ''('', js ''TODO'']
   \<and> getText (one_line_document (js ''f.ts'') (js ''a TODO''))
        (line_range \<lparr>line = 0, character = 3\<rparr>) = Inr (js ''a TODO'')
   \<and> RegExp_test (sample_env\<lparr>configuration_get := sample_config [js ''('', js ''TODO'']\<rparr>)
        (js ''TODO'') (js ''a TODO'') = Inr True
   \<and> completionIsAllowed
        (sample_env\<lparr>configuration_get := sample_config [js ''('', js ''TODO'']\<rparr>)
        (one_line_document (js ''f.ts'') (js ''a TODO'')) \<lparr>line = 0, character = 3\<rparr>
     = (Inl (Thrown (js ''SyntaxError'')),
        [GetText \<lparr>range_start = \<lparr>line = 0, character = 0\<rparr>,
                  range_end = \<lparr>line = 0, character = 500\<rparr>\<rparr>,
         RegExpTest (js ''('') (js ''a TODO'')])
   \<and> fst (completionIsAllowed
        (sample_env\<lparr>configuration_get := sample_config [js ''('', js ''TODO'']\<rparr>)
        (one_line_document (js ''f.ts'') (js ''a TODO'')) \<lparr>line = 0, character = 3\<rparr>)
     \<noteq> Inr False"
  by (simp add: completionIsAllowed_def disable_line_regex_def sample_config_def
      sample_env_def line_range_eq one_line_document_def literal_test_def js_def)

text \<open>
  C2, amended. The line patterns are the configured list tabnine.disable_line_regex and
  the file patterns the configured list tabnine.disable_file_regex, each empty when it
  is not configured. When completionIsAllowed returns, it returns false exactly when
  some line pattern matches the text of the cursor's line from column 0 to column 500,
  or some file pattern matches the file name; it returns whenever the line can be read
  and every configured pattern can be evaluated, and with both lists empty it returns
  true without any call. At the first line pattern that matches, it returns false having
  read the line once and evaluated the line patterns up to that one and nothing else;
  when no line pattern matches, it evaluates the file patterns up to the first that
  matches and returns false there, or evaluates them all and returns true. When the
  first line pattern that does not evaluate to false throws, the function throws. The
  line is never read more than once, and not at all when there is no line pattern.
\<close>

theorem completionIsAllowed_spec:
  "(fst (completionIsAllowed env document p) = Inr b \<longrightarrow>
      (b = False) =
        ((\<exists>r \<in> set (disable_line_regex env). \<exists>l. getText document (line_range p) = Inr l
              \<and> RegExp_test env r l = Inr True)
         \<or> (\<exists>r \<in> set (disable_file_regex env).
               RegExp_test env r (fileName document) = Inr True)))
   \<and> line_range p =
        \<lparr>range_start = \<lparr>line = line p, character = 0\<rparr>,
         range_end = \<lparr>line = line p, character = 500\<rparr>\<rparr>
   \<and> ((disable_line_regex env = []
          \<or> (\<exists>l. getText document (line_range p) = Inr l
                \<and> (\<forall>r \<in> set (disable_line_regex env). \<exists>b. RegExp_test env r l = Inr b)))
        \<and> (\<forall>r \<in> set (disable_file_regex env).
              \<exists>b. RegExp_test env r (fileName document) = Inr b)
        \<longrightarrow> (\<exists>b. fst (completionIsAllowed env document p) = Inr b))
   \<and> disable_line_regex env =
        (case configuration_get env (js ''tabnine.disable_line_regex'') of
           None \<Rightarrow> [] | Some rs \<Rightarrow> rs)
   \<and> disable_file_regex env =
        (case configuration_get env (js ''tabnine.disable_file_regex'') of
           None \<Rightarrow> [] | Some rs \<Rightarrow> rs)
   \<and> (disable_line_regex env = [] \<and> disable_file_regex env = []
        \<longrightarrow> completionIsAllowed env document p = (Inr True, []))
   \<and> (disable_line_regex env = pre @ r # post
        \<and> getText document (line_range p) = Inr l
        \<and> (\<forall>q \<in> set pre. RegExp_test env q l = Inr False)
        \<and> RegExp_test env r l = Inr True
        \<longrightarrow> completionIsAllowed env document p
            = (Inr False, GetText (line_range p) # map (\<lambda>q. RegExpTest q l) (pre @ [r])))
   \<and> (disable_line_regex env = pre @ r # post
        \<and> getText document (line_range p) = Inr l
        \<and> (\<forall>q \<in> set pre. RegExp_test env q l = Inr False)
        \<and> RegExp_test env r l = Inl e
        \<longrightarrow> completionIsAllowed env document p
            = (Inl e, GetText (line_range p) # map (\<lambda>q. RegExpTest q l) (pre @ [r])))
   \<and> ((disable_line_regex env = [] \<or> getText document (line_range p) = Inr l)
        \<and> (\<forall>q \<in> set (disable_line_regex env). RegExp_test env q l = Inr False)
        \<and> disable_file_regex env = fpre @ fr # fpost
        \<and> (\<forall>q \<in> set fpre. RegExp_test env q (fileName document) = Inr False)
        \<and> RegExp_test env fr (fileName document) = Inr True
        \<longrightarrow> completionIsAllowed env document p
            = (Inr False,
               (if disable_line_regex env = [] then []
                else GetText (line_range p)
                       # map (\<lambda>q. RegExpTest q l) (disable_line_regex env))
               @ map (\<lambda>q. RegExpTest q (fileName document)) (fpre @ [fr])))
   \<and> ((disable_line_regex env = [] \<or> getText document (line_range p) = Inr l)
        \<and> (\<forall>q \<in> set (disable_line_regex env). RegExp_test env q l = Inr False)
        \<and> (\<forall>q \<in> set (disable_file_regex env).
              RegExp_test env q (fileName document) = Inr False)
        \<longrightarrow> completionIsAllowed env document p
            = (Inr True,
               (if disable_line_regex env = [] then []
                else GetText (line_range p)
                       # map (\<lambda>q. RegExpTest q l) (disable_line_regex env))
               @ map (\<lambda>q. RegExpTest q (fileName document)) (disable_file_regex env)))
   \<and> length (filter is_GetText (snd (completionIsAllowed env document p))) \<le> 1
   \<and> (disable_line_regex env = []
        \<longrightarrow> filter is_GetText (snd (completionIsAllowed env document p)) = [])"
proof (intro conjI impI)
  assume "fst (completionIsAllowed env document p) = Inr b"
  then show "(b = False) =
        ((\<exists>r \<in> set (disable_line_regex env). \<exists>l. getText document (line_range p) = Inr l
              \<and> RegExp_test env r l = Inr True)
         \<or> (\<exists>r \<in> set (disable_file_regex env).
               RegExp_test env r (fileName document) = Inr True))"
    by (rule completionIsAllowed_result)
next
  show "line_range p =
        \<lparr>range_start = \<lparr>line = line p, character = 0\<rparr>,
         range_end = \<lparr>line = line p, character = 500\<rparr>\<rparr>"
    by (rule line_range_eq)
next
  assume "(disable_line_regex env = []
          \<or> (\<exists>l. getText document (line_range p) = Inr l
                \<and> (\<forall>r \<in> set (disable_line_regex env). \<exists>b. RegExp_test env r l = Inr b)))
        \<and> (\<forall>r \<in> set (disable_file_regex env).
              \<exists>b. RegExp_test env r (fileName document) = Inr b)"
  then show "\<exists>b. fst (completionIsAllowed env document p) = Inr b"
    using completionIsAllowed_total by blast
next
  show "disable_line_regex env =
        (case configuration_get env (js ''tabnine.disable_line_regex'') of
           None \<Rightarrow> [] | Some rs \<Rightarrow> rs)"
    by (simp add: disable_line_regex_def)
next
  show "disable_file_regex env =
        (case configuration_get env (js ''tabnine.disable_file_regex'') of
           None \<Rightarrow> [] | Some rs \<Rightarrow> rs)"
    by (simp add: disable_file_regex_def)
next
  assume "disable_line_regex env = [] \<and> disable_file_regex env = []"
  then show "completionIsAllowed env document p = (Inr True, [])"
    by (simp add: completionIsAllowed_def)
next
  assume "disable_line_regex env = pre @ r # post
        \<and> getText document (line_range p) = Inr l
        \<and> (\<forall>q \<in> set pre. RegExp_test env q l = Inr False)
        \<and> RegExp_test env r l = Inr True"
  then show "completionIsAllowed env document p
            = (Inr False, GetText (line_range p) # map (\<lambda>q. RegExpTest q l) (pre @ [r]))"
    using completionIsAllowed_short_circuit by blast
next
  assume "disable_line_regex env = pre @ r # post
        \<and> getText document (line_range p) = Inr l
        \<and> (\<forall>q \<in> set pre. RegExp_test env q l = Inr False)
        \<and> RegExp_test env r l = Inl e"
  then show "completionIsAllowed env document p
            = (Inl e, GetText (line_range p) # map (\<lambda>q. RegExpTest q l) (pre @ [r]))"
    using completionIsAllowed_throws by blast
next
  assume a: "(disable_line_regex env = [] \<or> getText document (line_range p) = Inr l)
        \<and> (\<forall>q \<in> set (disable_line_regex env). RegExp_test env q l = Inr False)
        \<and> disable_file_regex env = fpre @ fr # fpost
        \<and> (\<forall>q \<in> set fpre. RegExp_test env q (fileName document) = Inr False)
        \<and> RegExp_test env fr (fileName document) = Inr True"
  show "completionIsAllowed env document p
            = (Inr False,
               (if disable_line_regex env = [] then []
                else GetText (line_range p)
                       # map (\<lambda>q. RegExpTest q l) (disable_line_regex env))
               @ map (\<lambda>q. RegExpTest q (fileName document)) (fpre @ [fr]))"
    by (rule completionIsAllowed_file_hit) (use a in simp_all)
next
  assume a: "(disable_line_regex env = [] \<or> getText document (line_range p) = Inr l)
        \<and> (\<forall>q \<in> set (disable_line_regex env). RegExp_test env q l = Inr False)
        \<and> (\<forall>q \<in> set (disable_file_regex env).
              RegExp_test env q (fileName document) = Inr False)"
  show "completionIsAllowed env document p
            = (Inr True,
               (if disable_line_regex env = [] then []
                else GetText (line_range p)
                       # map (\<lambda>q. RegExpTest q l) (disable_line_regex env))
               @ map (\<lambda>q. RegExpTest q (fileName document)) (disable_file_regex env))"
    by (rule completionIsAllowed_no_hit) (use a in simp_all)
next
  show "length (filter is_GetText (snd (completionIsAllowed env document p))) \<le> 1"
    by (rule completionIsAllowed_reads_line_once)
next
  assume "disable_line_regex env = []"
  then show "filter is_GetText (snd (completionIsAllowed env document p)) = []"
    by (rule completionIsAllowed_no_line_regex)
qed


theorem completionIsAllowed_spec_witness:
  "completionIsAllowed sample_env (one_line_document (js ''f.ts'') (js ''a TODO''))
      \<lparr>line = 0, character = 3\<rparr> = (Inr True, [])
   \<and> completionIsAllowed
        (sample_env\<lparr>configuration_get := sample_config [js ''FIXME'', js ''TODO'', js ''('']\<rparr>)
        (one_line_document (js ''f.ts'') (js ''a TODO'')) \<lparr>line = 0, character = 3\<rparr>
     = (Inr False,
        [GetText \<lparr>range_start = \<lparr>line = 0, character = 0\<rparr>,
                  range_end = \<lparr>line = 0, character = 500\<rparr>\<rparr>,
         RegExpTest (js ''FIXME'') (js ''a TODO''),
         RegExpTest (js ''TODO'') (js ''a TODO'')])
   \<and> completionIsAllowed
        (sample_env\<lparr>configuration_get :=
           sample_file_config [js ''.md'', js ''.ts'', js ''('']\<rparr>)
        (one_line_document (js ''f.ts'') (js ''a TODO'')) \<lparr>line = 0, character = 3\<rparr>
     = (Inr False,
        [RegExpTest (js ''.md'') (js ''f.ts''), RegExpTest (js ''.ts'') (js ''f.ts'')])
   \<and> completionIsAllowed
        (sample_env\<lparr>configuration_get := sample_config [js ''FIXME'']\<rparr>)
        (one_line_document (js ''f.ts'') (js ''a TODO'')) \<lparr>line = 0, character = 3\<rparr>
     = (Inr True,
        [GetText \<lparr>range_start = \<lparr>line = 0, character = 0\<rparr>,
                  range_end = \<lparr>line = 0, character = 500\<rparr>\<rparr>,
         RegExpTest (js ''FIXME'') (js ''a TODO'')])"
proof -
  let ?d = "one_line_document (js ''f.ts'') (js ''a TODO'')"
  let ?p = "\<lparr>line = 0, character = 3\<rparr>"
  let ?env = "sample_env\<lparr>configuration_get :=
                 sample_config [js ''FIXME'', js ''TODO'', js ''('']\<rparr>"
  let ?envF = "sample_env\<lparr>configuration_get :=
                  sample_file_config [js ''.md'', js ''.ts'', js ''('']\<rparr>"
  let ?envN = "sample_env\<lparr>configuration_get := sample_config [js ''FIXME'']\<rparr>"
  have none: "disable_line_regex sample_env = [] \<and> disable_file_regex sample_env = []"
    by (simp add: sample_env_no_regex)
  have range: "line_range ?p
      = \<lparr>range_start = \<lparr>line = 0, character = 0\<rparr>,
         range_end = \<lparr>line = 0, character = 500\<rparr>\<rparr>"
    by (simp add: line_range_eq)
  have name: "fileName ?d = js ''f.ts''"
    by (simp add: one_line_document_def)
  have hit: "disable_line_regex ?env = [js ''FIXME''] @ js ''TODO'' # [js ''('']
      \<and> getText ?d (line_range ?p) = Inr (js ''a TODO'')
      \<and> (\<forall>q \<in> set [js ''FIXME'']. RegExp_test ?env q (js ''a TODO'') = Inr False)
      \<and> RegExp_test ?env (js ''TODO'') (js ''a TODO'') = Inr True"
    by (simp add: range disable_line_regex_def sample_config_def sample_env_def
        one_line_document_def literal_test_def js_def)
  have linesF: "disable_line_regex ?envF = []"
    by (simp add: disable_line_regex_def sample_file_config_def sample_env_def js_def)
  have fhit: "(disable_line_regex ?envF = [] \<or> getText ?d (line_range ?p) = Inr [])
      \<and> (\<forall>q \<in> set (disable_line_regex ?envF). RegExp_test ?envF q [] = Inr False)
      \<and> disable_file_regex ?envF = [js ''.md''] @ js ''.ts'' # [js ''('']
      \<and> (\<forall>q \<in> set [js ''.md'']. RegExp_test ?envF q (fileName ?d) = Inr False)
      \<and> RegExp_test ?envF (js ''.ts'') (fileName ?d) = Inr True"
    using linesF name
    by (simp add: disable_file_regex_def sample_file_config_def sample_env_def
        literal_test_def js_def)
  have linesN: "disable_line_regex ?envN = [js ''FIXME'']"
    by (simp add: disable_line_regex_def sample_config_def sample_env_def)
  have filesN: "disable_file_regex ?envN = []"
    by (simp add: disable_file_regex_def sample_config_def sample_env_def js_def)
  have nohit: "(disable_line_regex ?envN = [] \<or> getText ?d (line_range ?p) = Inr (js ''a TODO''))
      \<and> (\<forall>q \<in> set (disable_line_regex ?envN). RegExp_test ?envN q (js ''a TODO'') = Inr False)
      \<and> (\<forall>q \<in> set (disable_file_regex ?envN). RegExp_test ?envN q (fileName ?d) = Inr False)"
    using linesN filesN range
    by (simp add: one_line_document_def sample_env_def literal_test_def js_def)
  from completionIsAllowed_spec [of sample_env ?d ?p True "[]" "[]" "[]" "[]"] none
  have "completionIsAllowed sample_env ?d ?p = (Inr True, [])"
    by blast
  moreover
  from completionIsAllowed_spec [of ?env ?d ?p False "[js ''FIXME'']" "js ''TODO''"
      "[js ''('']" "js ''a TODO''"] hit
  have "completionIsAllowed ?env ?d ?p
      = (Inr False, GetText (line_range ?p)
           # map (\<lambda>q. RegExpTest q (js ''a TODO'')) ([js ''FIXME''] @ [js ''TODO'']))"
    by blast
  moreover
  from completionIsAllowed_spec [of ?envF ?d ?p False "[]" "[]" "[]" "[]" IllegalArgument
      "[js ''.md'']" "js ''.ts''" "[js ''('']"] fhit
  have "completionIsAllowed ?envF ?d ?p
      = (Inr False,
         (if disable_line_regex ?envF = [] then []
          else GetText (line_range ?p) # map (\<lambda>q. RegExpTest q []) (disable_line_regex ?envF))
         @ map (\<lambda>q. RegExpTest q (fileName ?d)) ([js ''.md''] @ [js ''.ts'']))"
    by blast
  moreover
  from completionIsAllowed_spec [of ?envN ?d ?p True "[]" "[]" "[]" "js ''a TODO''"] nohit
  have "completionIsAllowed ?envN ?d ?p
      = (Inr True,
         (if disable_line_regex ?envN = [] then []
          else GetText (line_range ?p)
                 # map (\<lambda>q. RegExpTest q (js ''a TODO'')) (disable_line_regex ?envN))
         @ map (\<lambda>q. RegExpTest q (fileName ?d)) (disable_file_regex ?envN))"
    by blast
  ultimately show ?thesis
    by (simp add: range name linesF linesN filesN)
qed

end
